theory Spec2Isabelle
  imports Main
begin

section \<open>Data model\<close>

text \<open>
  The documents of the three collections the events service works on. An identifier is
  the hexadecimal string of a Mongo ObjectId, taken in its canonical form, so that
  \<^verbatim>\<open>a.toString() === b\<close> on an ObjectId \<open>a\<close> is equality of identifiers. A timestamp
  is the number a \<^verbatim>\<open>Date\<close> holds.
\<close>

type_synonym object_id = string
type_synonym timestamp = nat

datatype role = ADMIN | MARKETER | CONCIERGE | ATTENDEE

datatype status = Pending | Approved | Rejected

record concierge_request =
  request_id :: object_id
  user :: object_id
  status :: status
  requestedAt :: timestamp
  reviewedAt :: "timestamp option"
  reviewedBy :: "object_id option"

record event_doc =
  event_id :: object_id
  marketers :: "object_id list"
  conciergeRequests :: "concierge_request list"

record user_doc =
  user_id :: object_id
  role :: role
  eventParticipation :: "object_id list"

record attendee_doc =
  attendee_id :: object_id
  event :: object_id
  phone :: string
  checkedIn :: bool
  checkedInBy :: "object_id option"
  checkedInTime :: "timestamp option"

text \<open>The database: each collection in its natural (insertion) order.\<close>

record store =
  events :: "event_doc list"
  users :: "user_doc list"
  attendees :: "attendee_doc list"

text \<open>
  What a call takes from its surroundings: the clock (\<^verbatim>\<open>new Date()\<close>), the identifier
  Mongoose gives to a pushed sub-document, and whether each write to the database
  resolves (\<^verbatim>\<open>event.save()\<close>, the write of the users service, the update of the
  attendees service).
\<close>

record env =
  now :: timestamp
  newId :: object_id
  eventSave :: bool
  userWrite :: bool
  attendeeUpdate :: bool

text \<open>
  The exceptions of the service, without their messages. \<open>StoreError\<close> is an error
  that is not an \<^verbatim>\<open>HttpException\<close>: the rejection of a database write.
\<close>

datatype http_status = BAD_REQUEST | NOT_FOUND | INTERNAL_SERVER_ERROR

datatype error =
    NotFoundException
  | UnauthorizedException
  | HttpException http_status
  | StoreError

section \<open>Array helpers\<close>

text \<open>\<^verbatim>\<open>Array.prototype.findIndex\<close>, with \<open>None\<close> for \<open>-1\<close>.\<close>

fun findIndex :: "('a \<Rightarrow> bool) \<Rightarrow> 'a list \<Rightarrow> nat option" where
  "findIndex P [] = None"
| "findIndex P (x # xs) = (if P x then Some 0 else map_option Suc (findIndex P xs))"

text \<open>\<^verbatim>\<open>xs.splice(i, 1)\<close>: the array without the element at index \<open>i\<close>.\<close>

definition splice1 :: "nat \<Rightarrow> 'a list \<Rightarrow> 'a list" where
  "splice1 i xs = take i xs @ drop (Suc i) xs"

text \<open>
  Assigning to the fields of the object that \<^verbatim>\<open>Array.prototype.find\<close> returned: the first
  element that satisfies the predicate is changed in place.
\<close>

fun update_first :: "('a \<Rightarrow> bool) \<Rightarrow> ('a \<Rightarrow> 'a) \<Rightarrow> 'a list \<Rightarrow> 'a list" where
  "update_first P f [] = []"
| "update_first P f (x # xs) = (if P x then f x # xs else x # update_first P f xs)"

section \<open>The collections\<close>

text \<open>\<^verbatim>\<open>findOne\<close>: the event with this identifier, or \<^verbatim>\<open>NotFoundException\<close>.\<close>

definition findOne :: "store \<Rightarrow> object_id \<Rightarrow> error + event_doc" where
  "findOne s eventId =
     (case List.find (\<lambda>d. event_id d = eventId) (events s) of
        None \<Rightarrow> Inl NotFoundException
      | Some d \<Rightarrow> Inr d)"

text \<open>
  \<^verbatim>\<open>event.save()\<close> when it resolves: the stored document with the identifier of the
  loaded one is replaced by it.
\<close>

definition save_event :: "event_doc \<Rightarrow> store \<Rightarrow> store" where
  "save_event ev s =
     s\<lparr>events := update_first (\<lambda>d. event_id d = event_id ev) (\<lambda>d. ev) (events s)\<rparr>"

text \<open>
  Modelled from the spec: \<^verbatim>\<open>usersService.findById\<close>; the users service is not
  among the sources. The user with this identifier, or NotFound when the user is missing.
\<close>

definition findById :: "store \<Rightarrow> object_id \<Rightarrow> error + user_doc" where
  "findById s userId =
     (case List.find (\<lambda>d. user_id d = userId) (users s) of
        None \<Rightarrow> Inl NotFoundException
      | Some d \<Rightarrow> Inr d)"

text \<open>
  \<^verbatim>\<open>findOne\<close> runs its query with \<^verbatim>\<open>populate('marketers', '-password')\<close>: in the
  event it returns, each identifier of \<open>marketers\<close> whose user exists is replaced by the
  document of that user, and an identifier without a user is left out. An element of the
  array is then a document; an ObjectId is what \<^verbatim>\<open>new Types.ObjectId(marketerId)\<close> makes.
\<close>

datatype marketer_ref = ObjectId object_id | Populated user_doc

definition populate :: "store \<Rightarrow> object_id list \<Rightarrow> marketer_ref list" where
  "populate s ids =
     concat (map (\<lambda>i. case List.find (\<lambda>d. user_id d = i) (users s) of
                          None \<Rightarrow> []
                        | Some d \<Rightarrow> [Populated d]) ids)"

text \<open>
  What \<^verbatim>\<open>toString()\<close> yields: on an ObjectId its hexadecimal string, on a document the
  text that \<^verbatim>\<open>inspect\<close> prints of the document, which is the hexadecimal string of no
  ObjectId.
\<close>

datatype js_string = HexString object_id | InspectString user_doc

fun toString :: "marketer_ref \<Rightarrow> js_string" where
  "toString (ObjectId i) = HexString i"
| "toString (Populated d) = InspectString d"

text \<open>Saving a reference array casts each element to the identifier it stands for.\<close>

fun cast_id :: "marketer_ref \<Rightarrow> object_id" where
  "cast_id (ObjectId i) = i"
| "cast_id (Populated d) = user_id d"

text \<open>
  Modelled from the spec: \<^verbatim>\<open>usersService.addEventParticipation\<close>; the users
  service is not among the sources. It appends the event to the user's \<open>eventParticipation\<close>,
  which is a set: an event already there is not added again.
\<close>

definition addEventParticipation :: "object_id \<Rightarrow> object_id \<Rightarrow> store \<Rightarrow> store" where
  "addEventParticipation userId eventId s =
     s\<lparr>users := update_first (\<lambda>d. user_id d = userId)
                 (\<lambda>d. d\<lparr>eventParticipation :=
                          (if list_ex (\<lambda>e. e = eventId) (eventParticipation d)
                           then eventParticipation d
                           else eventParticipation d @ [eventId])\<rparr>)
                 (users s)\<rparr>"

text \<open>
  Modelled from the spec: \<^verbatim>\<open>usersService.removeEventParticipation\<close>; the users
  service is not among the sources. It removes the event from the user's \<open>eventParticipation\<close>.
\<close>

definition removeEventParticipation :: "object_id \<Rightarrow> object_id \<Rightarrow> store \<Rightarrow> store" where
  "removeEventParticipation userId eventId s =
     s\<lparr>users := update_first (\<lambda>d. user_id d = userId)
                 (\<lambda>d. d\<lparr>eventParticipation :=
                          filter (\<lambda>e. e \<noteq> eventId) (eventParticipation d)\<rparr>)
                 (users s)\<rparr>"

text \<open>
  Modelled from the spec: \<^verbatim>\<open>attendeesService.findByQuery\<close>; the attendees service
  is not among the sources. The attendees of this event with this phone number, in the order of
  the collection.
\<close>

definition findByQuery :: "store \<Rightarrow> string \<Rightarrow> object_id \<Rightarrow> attendee_doc list" where
  "findByQuery s ph eventId =
     filter (\<lambda>a. phone a = ph \<and> event a = eventId) (attendees s)"

text \<open>
  Modelled from the spec: \<^verbatim>\<open>attendeesService.update\<close>; the attendees service is not
  among the sources. It sets the three check-in fields of the attendee with this identifier.
\<close>

definition update_attendee ::
  "object_id \<Rightarrow> bool \<Rightarrow> object_id \<Rightarrow> timestamp \<Rightarrow> store \<Rightarrow> store" where
  "update_attendee attendeeId ci cby t s =
     s\<lparr>attendees := update_first (\<lambda>a. attendee_id a = attendeeId)
                     (\<lambda>a. a\<lparr>checkedIn := ci, checkedInBy := Some cby,
                              checkedInTime := Some t\<rparr>)
                     (attendees s)\<rparr>"

section \<open>Participation: join and leave\<close>

text \<open>
  \<^verbatim>\<open>addMarketerToEvent\<close>. Both documents are loaded, then the role is checked. The test
  \<^verbatim>\<open>isMarketerAlreadyAdded\<close> compares the strings of the populated elements of
  \<open>marketers\<close> with the string of the ObjectId. \<^verbatim>\<open>push\<close> adds the ObjectId to the array,
  and the save appends its identifier to the stored one. The two writes run under
  \<^verbatim>\<open>Promise.all\<close>: each is applied when it resolves, whatever the other does, and the
  rejection of either is caught and thrown again as an \<^verbatim>\<open>HttpException\<close> with status
  \<^verbatim>\<open>INTERNAL_SERVER_ERROR\<close>.
\<close>

definition addMarketerToEvent ::
  "env \<Rightarrow> object_id \<Rightarrow> object_id \<Rightarrow> store \<Rightarrow> (error + event_doc) \<times> store" where
  "addMarketerToEvent en eventId marketerId s =
     (case findOne s eventId of
        Inl e \<Rightarrow> (Inl e, s)
      | Inr ev \<Rightarrow>
         (case findById s marketerId of
            Inl e \<Rightarrow> (Inl e, s)
          | Inr marketer \<Rightarrow>
             if role marketer \<noteq> MARKETER then (Inl UnauthorizedException, s)
             else if list_ex (\<lambda>m. toString m = toString (ObjectId marketerId))
                       (populate s (marketers ev))
             then (findOne s eventId, s)
             else
               let ev' = ev\<lparr>marketers := marketers ev @ [cast_id (ObjectId marketerId)]\<rparr>;
                   s1 = (if eventSave en then save_event ev' s else s);
                   s2 = (if userWrite en then addEventParticipation marketerId eventId s1
                         else s1)
               in if eventSave en \<and> userWrite en then (findOne s2 eventId, s2)
                  else (Inl (HttpException INTERNAL_SERVER_ERROR), s2)))"

text \<open>
  The body of the \<^verbatim>\<open>try\<close> block of \<^verbatim>\<open>removeMarketerFromEvent\<close>. The test
  \<^verbatim>\<open>if (!event)\<close> after \<^verbatim>\<open>findOne\<close> is never taken, since \<^verbatim>\<open>findOne\<close> throws when the
  event is missing. The filter runs on the populated elements of \<open>marketers\<close>. When it
  keeps all of them, the array assigned to \<open>event.marketers\<close> equals the loaded one and the
  save writes the event as it is stored; otherwise the save writes the identifiers of the
  elements that are kept. A rejected write is a \<open>StoreError\<close> here.
\<close>

definition removeMarketerFromEvent_try ::
  "env \<Rightarrow> object_id \<Rightarrow> object_id \<Rightarrow> store \<Rightarrow> (error + event_doc) \<times> store" where
  "removeMarketerFromEvent_try en eventId marketerId s =
     (case findOne s eventId of
        Inl e \<Rightarrow> (Inl e, s)
      | Inr ev \<Rightarrow>
          let loaded = populate s (marketers ev);
              kept = filter (\<lambda>m. toString m \<noteq> toString (ObjectId marketerId)) loaded;
              ev' = (if kept = loaded then ev else ev\<lparr>marketers := map cast_id kept\<rparr>);
              s1 = (if eventSave en then save_event ev' s else s);
              s2 = (if userWrite en then removeEventParticipation marketerId eventId s1
                    else s1)
          in if eventSave en \<and> userWrite en then (findOne s2 eventId, s2)
             else (Inl StoreError, s2))"

text \<open>
  \<^verbatim>\<open>removeMarketerFromEvent\<close>: the \<^verbatim>\<open>catch\<close> clause turns every error of the body into an
  \<^verbatim>\<open>HttpException\<close> with status \<^verbatim>\<open>INTERNAL_SERVER_ERROR\<close>.
\<close>

definition removeMarketerFromEvent ::
  "env \<Rightarrow> object_id \<Rightarrow> object_id \<Rightarrow> store \<Rightarrow> (error + event_doc) \<times> store" where
  "removeMarketerFromEvent en eventId marketerId s =
     (case removeMarketerFromEvent_try en eventId marketerId s of
        (Inl e, s') \<Rightarrow> (Inl (HttpException INTERNAL_SERVER_ERROR), s')
      | (Inr v, s') \<Rightarrow> (Inr v, s'))"

section \<open>Concierge requests\<close>

text \<open>\<^verbatim>\<open>requestConcierge\<close>.\<close>

definition requestConcierge ::
  "env \<Rightarrow> object_id \<Rightarrow> object_id \<Rightarrow> store \<Rightarrow> (error + string) \<times> store" where
  "requestConcierge en eventId userId s =
     (case findOne s eventId of
        Inl e \<Rightarrow> (Inl e, s)
      | Inr ev \<Rightarrow>
          if list_ex (\<lambda>r. user r = userId \<and> status r = Pending) (conciergeRequests ev)
          then (Inl (HttpException BAD_REQUEST), s)
          else
            let ev' = ev\<lparr>conciergeRequests := conciergeRequests ev @
                         [\<lparr>request_id = newId en, user = userId, status = Pending,
                           requestedAt = now en, reviewedAt = None, reviewedBy = None\<rparr>]\<rparr>
            in if eventSave en
               then (Inr ''Request submitted for admin approval'', save_event ev' s)
               else (Inl StoreError, s))"

text \<open>
  \<^verbatim>\<open>getConciergeAssignments\<close>: the status attached to one event is the status of the
  request that \<^verbatim>\<open>find\<close> returns for the user, \<^verbatim>\<open>undefined\<close> when there is none.
\<close>

definition myConciergeStatus :: "object_id \<Rightarrow> event_doc \<Rightarrow> status option" where
  "myConciergeStatus userId ev =
     (case List.find (\<lambda>r. user r = userId) (conciergeRequests ev) of
        None \<Rightarrow> None
      | Some myRequest \<Rightarrow> Some (status myRequest))"

definition getConciergeAssignments ::
  "object_id \<Rightarrow> store \<Rightarrow> (event_doc \<times> status option) list" where
  "getConciergeAssignments userId s =
     map (\<lambda>ev. (ev, myConciergeStatus userId ev))
       (filter (\<lambda>ev. list_ex (\<lambda>r. user r = userId) (conciergeRequests ev)) (events s))"

text \<open>\<^verbatim>\<open>reviewConciergeRequest\<close>. The parameter \<open>adminId\<close> is not used by the body.\<close>

definition reviewConciergeRequest ::
  "env \<Rightarrow> object_id \<Rightarrow> object_id \<Rightarrow> bool \<Rightarrow> object_id \<Rightarrow> store
     \<Rightarrow> (error + string) \<times> store" where
  "reviewConciergeRequest en eventId requestId approve adminId s =
     (case findOne s eventId of
        Inl e \<Rightarrow> (Inl e, s)
      | Inr ev \<Rightarrow>
         (case List.find (\<lambda>r. request_id r = requestId) (conciergeRequests ev) of
            None \<Rightarrow> (Inl NotFoundException, s)
          | Some req \<Rightarrow>
              if status req \<noteq> Pending then (Inl (HttpException BAD_REQUEST), s)
              else
                let ev' = ev\<lparr>conciergeRequests :=
                            update_first (\<lambda>r. request_id r = requestId)
                              (\<lambda>r. r\<lparr>status := (if approve then Approved else Rejected),
                                     reviewedAt := Some (now en)\<rparr>)
                              (conciergeRequests ev)\<rparr>
                in if eventSave en
                   then (Inr (if approve then ''Request approved'' else ''Request rejected''),
                         save_event ev' s)
                   else (Inl StoreError, s)))"

text \<open>\<^verbatim>\<open>cancelConciergeRequest\<close>.\<close>

definition cancelConciergeRequest ::
  "env \<Rightarrow> object_id \<Rightarrow> object_id \<Rightarrow> store \<Rightarrow> (error + string) \<times> store" where
  "cancelConciergeRequest en eventId userId s =
     (case findOne s eventId of
        Inl e \<Rightarrow> (Inl e, s)
      | Inr ev \<Rightarrow>
         (case findIndex (\<lambda>r. user r = userId \<and> status r = Pending) (conciergeRequests ev) of
            None \<Rightarrow> (Inl NotFoundException, s)
          | Some reqIndex \<Rightarrow>
              let ev' = ev\<lparr>conciergeRequests := splice1 reqIndex (conciergeRequests ev)\<rparr>
              in if eventSave en then (Inr ''Request cancelled'', save_event ev' s)
                 else (Inl StoreError, s)))"

section \<open>Check-in\<close>

text \<open>The body of the \<^verbatim>\<open>try\<close> block of \<^verbatim>\<open>checkInAttendee\<close>.\<close>

definition checkInAttendee_try ::
  "env \<Rightarrow> object_id \<Rightarrow> string \<Rightarrow> object_id \<Rightarrow> store \<Rightarrow> (error + string) \<times> store" where
  "checkInAttendee_try en eventId ph conciergeId s =
     (case findOne s eventId of
        Inl e \<Rightarrow> (Inl e, s)
      | Inr ev \<Rightarrow>
          if \<not> list_ex (\<lambda>req. user req = conciergeId \<and> status req = Approved)
                 (conciergeRequests ev)
          then (Inl UnauthorizedException, s)
          else
            (case findByQuery s ph eventId of
               [] \<Rightarrow> (Inl NotFoundException, s)
             | attendee # _ \<Rightarrow>
                 if checkedIn attendee then (Inl (HttpException BAD_REQUEST), s)
                 else if attendeeUpdate en
                 then (Inr ''Attendee checked in successfully'',
                       update_attendee (attendee_id attendee) True conciergeId (now en) s)
                 else (Inl StoreError, s)))"

text \<open>
  The \<^verbatim>\<open>catch\<close> clause of \<^verbatim>\<open>checkInAttendee\<close>: the three exception classes are thrown again
  as they are, anything else becomes an \<^verbatim>\<open>HttpException\<close> with status
  \<^verbatim>\<open>INTERNAL_SERVER_ERROR\<close>.
\<close>

fun checkInAttendee_catch :: "error \<Rightarrow> error" where
  "checkInAttendee_catch NotFoundException = NotFoundException"
| "checkInAttendee_catch UnauthorizedException = UnauthorizedException"
| "checkInAttendee_catch (HttpException st) = HttpException st"
| "checkInAttendee_catch StoreError = HttpException INTERNAL_SERVER_ERROR"

definition checkInAttendee ::
  "env \<Rightarrow> object_id \<Rightarrow> string \<Rightarrow> object_id \<Rightarrow> store \<Rightarrow> (error + string) \<times> store" where
  "checkInAttendee en eventId ph conciergeId s =
     (case checkInAttendee_try en eventId ph conciergeId s of
        (Inl e, s') \<Rightarrow> (Inl (checkInAttendee_catch e), s')
      | (Inr v, s') \<Rightarrow> (Inr v, s'))"

section \<open>The invariant of the concierge requests\<close>

text \<open>
  An event keeps the invariant when the users of its \<open>Pending\<close> requests are pairwise
  different, that is, when no user has two \<open>Pending\<close> requests on it; a store keeps it
  when every event does. \<open>pending_count\<close> is the number of \<open>Pending\<close> requests of one
  user on one event, and \<open>pending_requests\<close> lists the \<open>Pending\<close> requests of the whole
  store, each with the identifier of its event.
\<close>

definition pending_count :: "object_id \<Rightarrow> event_doc \<Rightarrow> nat" where
  "pending_count userId ev =
     length (filter (\<lambda>r. user r = userId \<and> status r = Pending) (conciergeRequests ev))"

definition pending_unique :: "event_doc \<Rightarrow> bool" where
  "pending_unique ev =
     distinct (map user (filter (\<lambda>r. status r = Pending) (conciergeRequests ev)))"

definition one_pending_per_user :: "store \<Rightarrow> bool" where
  "one_pending_per_user s = list_all pending_unique (events s)"

definition pending_requests :: "store \<Rightarrow> (object_id \<times> concierge_request) list" where
  "pending_requests s =
     concat (map (\<lambda>ev. map (Pair (event_id ev))
                          (filter (\<lambda>r. status r = Pending) (conciergeRequests ev)))
                 (events s))"

section \<open>Predicates of the specification\<close>




text \<open>
  The status the specification asks \<open>myStatus\<close> to return, in the specification's words:
  the status of the most recently created request of the user on the event, none when the
  user has no request there. The requests of an event are in the order of their creation.
\<close>

definition spec_myStatus :: "object_id \<Rightarrow> event_doc \<Rightarrow> status option" where
  "spec_myStatus userId ev =
     (case filter (\<lambda>r. user r = userId) (conciergeRequests ev) of
        [] \<Rightarrow> None
      | r # rs \<Rightarrow> Some (status (last (r # rs))))"

section \<open>A small database\<close>

text \<open>
  One event with three concierge requests (a rejected and a pending one of \<open>c1\<close>, an
  approved one of \<open>c2\<close>), three users and three attendees, two of them registered with
  the same phone number.
\<close>

definition req1 :: concierge_request where
  "req1 = \<lparr>request_id = ''r1'', user = ''c1'', status = Rejected, requestedAt = 1,
            reviewedAt = Some 2, reviewedBy = None\<rparr>"

definition req2 :: concierge_request where
  "req2 = \<lparr>request_id = ''r2'', user = ''c1'', status = Pending, requestedAt = 3,
            reviewedAt = None, reviewedBy = None\<rparr>"

definition req3 :: concierge_request where
  "req3 = \<lparr>request_id = ''r3'', user = ''c2'', status = Approved, requestedAt = 4,
            reviewedAt = Some 5, reviewedBy = None\<rparr>"

definition event1 :: event_doc where
  "event1 = \<lparr>event_id = ''e1'', marketers = [''u2''],
              conciergeRequests = [req1, req2, req3]\<rparr>"

definition att1 :: attendee_doc where
  "att1 = \<lparr>attendee_id = ''a1'', event = ''e1'', phone = ''+15551234567'',
            checkedIn = False, checkedInBy = None, checkedInTime = None\<rparr>"

definition att2 :: attendee_doc where
  "att2 = \<lparr>attendee_id = ''a2'', event = ''e1'', phone = ''+15551234567'',
            checkedIn = False, checkedInBy = None, checkedInTime = None\<rparr>"

definition att3 :: attendee_doc where
  "att3 = \<lparr>attendee_id = ''a3'', event = ''e1'', phone = ''+15550000000'',
            checkedIn = True, checkedInBy = Some ''c2'', checkedInTime = Some 6\<rparr>"

definition store1 :: store where
  "store1 = \<lparr>events = [event1],
              users = [\<lparr>user_id = ''u1'', role = MARKETER, eventParticipation = []\<rparr>,
                       \<lparr>user_id = ''u2'', role = MARKETER, eventParticipation = [''e1'']\<rparr>,
                       \<lparr>user_id = ''c1'', role = CONCIERGE, eventParticipation = []\<rparr>],
              attendees = [att1, att2, att3]\<rparr>"

text \<open>Surroundings in which every write resolves, only the event's, and none.\<close>

definition env1 :: env where
  "env1 = \<lparr>now = 10, newId = ''r4'', eventSave = True, userWrite = True,
            attendeeUpdate = True\<rparr>"



text \<open>
  A store with one event without requests, and the store after \<open>c1\<close> has requested, an
  administrator has rejected the request, and \<open>c1\<close> has requested again.
\<close>

definition store0 :: store where
  "store0 = \<lparr>events = [\<lparr>event_id = ''e1'', marketers = [], conciergeRequests = []\<rparr>],
              users = [], attendees = []\<rparr>"

definition store_rerequested :: store where
  "store_rerequested =
     snd (requestConcierge (env1\<lparr>now := 3, newId := ''r2''\<rparr>) ''e1'' ''c1''
       (snd (reviewConciergeRequest (env1\<lparr>now := 2\<rparr>) ''e1'' ''r1'' False ''admin''
         (snd (requestConcierge (env1\<lparr>now := 1, newId := ''r1''\<rparr>) ''e1'' ''c1'' store0)))))"

section \<open>Facts about the array helpers and the collections\<close>

lemmas ex_defs = store1_def event1_def req1_def req2_def req3_def att1_def att2_def att3_def
  env1_def

lemma update_first_none:
  "List.find P xs = None \<Longrightarrow> update_first P f xs = xs"
  by (induction xs) (auto split: if_splits)

lemma find_Some_decomp:
  "List.find P xs = Some x \<Longrightarrow>
     \<exists>pre post. xs = pre @ x # post \<and> P x \<and> list_all (\<lambda>y. \<not> P y) pre"
proof (induction xs)
  case Nil
  then show ?case by simp
next
  case (Cons a xs)
  show ?case
  proof (cases "P a")
    case True
    with Cons.prems have "a = x" by simp
    with True have "a # xs = [] @ x # xs \<and> P x \<and> list_all (\<lambda>y. \<not> P y) []" by simp
    then show ?thesis by blast
  next
    case False
    with Cons.prems have "List.find P xs = Some x" by simp
    from Cons.IH [OF this] obtain pre post
      where "xs = pre @ x # post" "P x" "list_all (\<lambda>y. \<not> P y) pre" by blast
    with False have "a # xs = (a # pre) @ x # post \<and> P x \<and> list_all (\<lambda>y. \<not> P y) (a # pre)"
      by simp
    then show ?thesis by blast
  qed
qed

lemma find_decomp_eq:
  "list_all (\<lambda>y. \<not> P y) pre \<Longrightarrow> P x \<Longrightarrow> List.find P (pre @ x # post) = Some x"
  by (induction pre) auto

lemma update_first_decomp:
  "list_all (\<lambda>y. \<not> P y) pre \<Longrightarrow> P x \<Longrightarrow>
     update_first P f (pre @ x # post) = pre @ f x # post"
  by (induction pre) auto

lemma findIndex_decomp:
  "list_all (\<lambda>y. \<not> P y) pre \<Longrightarrow> P x \<Longrightarrow> findIndex P (pre @ x # post) = Some (length pre)"
  by (induction pre) auto

lemma findIndex_none:
  "findIndex P xs = None \<longleftrightarrow> \<not> list_ex P xs"
  by (induction xs) auto

lemma find_none_list_ex:
  "List.find P xs = None \<longleftrightarrow> \<not> list_ex P xs"
  by (induction xs) auto

lemma list_ex_decomp:
  "list_ex P xs \<Longrightarrow> \<exists>pre x post. xs = pre @ x # post \<and> P x \<and> list_all (\<lambda>y. \<not> P y) pre"
proof -
  assume "list_ex P xs"
  then obtain x where "List.find P xs = Some x"
    using find_none_list_ex [of P xs] by (cases "List.find P xs") auto
  from find_Some_decomp [OF this] show ?thesis by blast
qed

lemma splice1_decomp: "splice1 (length pre) (pre @ x # post) = pre @ post"
  by (simp add: splice1_def)

lemma find_update_first_same:
  "(\<And>x. P x \<Longrightarrow> P (f x)) \<Longrightarrow> List.find P (update_first P f xs) = map_option f (List.find P xs)"
  by (induction xs) auto

lemma find_update_first_other:
  "(\<And>x. P x \<Longrightarrow> \<not> Q x \<and> \<not> Q (f x)) \<Longrightarrow> List.find Q (update_first P f xs) = List.find Q xs"
  by (induction xs) auto

lemma map_update_first_const:
  "List.find P xs = Some x \<Longrightarrow> g y = g x \<Longrightarrow> map g (update_first P (\<lambda>d. y) xs) = map g xs"
  by (induction xs) (auto split: if_splits)

lemma map_update_first_keep:
  "(\<And>x. g (f x) = g x) \<Longrightarrow> map g (update_first P f xs) = map g xs"
  by (induction xs) auto

lemma findOne_event_id: "findOne s eventId = Inr ev \<Longrightarrow> event_id ev = eventId"
  by (auto simp: findOne_def split: option.splits dest: find_Some_decomp)

lemma findOne_find:
  "findOne s eventId = Inr ev \<Longrightarrow> List.find (\<lambda>d. event_id d = eventId) (events s) = Some ev"
  by (auto simp: findOne_def split: option.splits)

lemma findOne_save_event:
  "findOne s eventId = Inr ev \<Longrightarrow> event_id ev' = eventId \<Longrightarrow>
     findOne (save_event ev' s) eventId = Inr ev'"
  by (auto simp: findOne_def save_event_def find_update_first_same split: option.splits)

lemma findOne_Inl: "findOne s eventId = Inl e \<Longrightarrow> e = NotFoundException"
  by (auto simp: findOne_def split: option.splits)

lemma update_first_same: "List.find P xs = Some x \<Longrightarrow> update_first P (\<lambda>d. x) xs = xs"
  by (induction xs) (auto split: if_splits)

lemma save_event_same: "findOne s eventId = Inr ev \<Longrightarrow> save_event ev s = s"
  using findOne_find [of s eventId ev] findOne_event_id [of s eventId ev]
  by (simp add: save_event_def update_first_same)

lemma populate_elements: "m \<in> set (populate s ids) \<Longrightarrow> \<exists>d. m = Populated d"
  by (auto simp: populate_def split: option.splits)

lemma populate_no_match:
  "\<not> list_ex (\<lambda>m. toString m = HexString i) (populate s ids)"
  by (auto simp: list_ex_iff dest: populate_elements)

lemma populate_filter_keeps:
  "filter (\<lambda>m. toString m \<noteq> HexString i) (populate s ids) = populate s ids"
  by (auto simp: filter_id_conv dest: populate_elements)

text \<open>
  What the two operations come to: the membership test of the join never holds, and the
  filter of the leave keeps every element, so that its save leaves the event as it is.
\<close>

lemma addMarketerToEvent_unfold:
  "addMarketerToEvent en eventId marketerId s =
     (case findOne s eventId of
        Inl e \<Rightarrow> (Inl e, s)
      | Inr ev \<Rightarrow>
         (case findById s marketerId of
            Inl e \<Rightarrow> (Inl e, s)
          | Inr marketer \<Rightarrow>
             if role marketer \<noteq> MARKETER then (Inl UnauthorizedException, s)
             else
               let ev' = ev\<lparr>marketers := marketers ev @ [marketerId]\<rparr>;
                   s1 = (if eventSave en then save_event ev' s else s);
                   s2 = (if userWrite en then addEventParticipation marketerId eventId s1
                         else s1)
               in if eventSave en \<and> userWrite en then (findOne s2 eventId, s2)
                  else (Inl (HttpException INTERNAL_SERVER_ERROR), s2)))"
  by (simp add: addMarketerToEvent_def populate_no_match split: sum.splits)

lemma removeMarketerFromEvent_try_unfold:
  "removeMarketerFromEvent_try en eventId marketerId s =
     (case findOne s eventId of
        Inl e \<Rightarrow> (Inl e, s)
      | Inr ev \<Rightarrow>
          let s2 = (if userWrite en then removeEventParticipation marketerId eventId s else s)
          in if eventSave en \<and> userWrite en then (findOne s2 eventId, s2)
             else (Inl StoreError, s2))"
  by (simp add: removeMarketerFromEvent_try_def populate_filter_keeps save_event_same Let_def
      split: sum.splits)

section \<open>Facts about the invariant\<close>

lemma distinct_map_count:
  "distinct (map f xs) \<longleftrightarrow> (\<forall>u. length (filter (\<lambda>x. f x = u) xs) \<le> 1)"
proof (induction xs)
  case Nil
  then show ?case by simp
next
  case (Cons a xs)
  have none: "f a \<notin> f ` set xs \<longleftrightarrow> filter (\<lambda>x. f x = f a) xs = []"
    by (force simp: filter_empty_conv image_iff)
  show ?case
  proof
    assume d: "distinct (map f (a # xs))"
    with Cons.IH have ih: "\<forall>u. length (filter (\<lambda>x. f x = u) xs) \<le> 1" by simp
    from d none have "filter (\<lambda>x. f x = f a) xs = []" by simp
    with ih show "\<forall>u. length (filter (\<lambda>x. f x = u) (a # xs)) \<le> 1" by auto
  next
    assume c: "\<forall>u. length (filter (\<lambda>x. f x = u) (a # xs)) \<le> 1"
    then have "length (filter (\<lambda>x. f x = f a) (a # xs)) \<le> 1" by blast
    then have e: "filter (\<lambda>x. f x = f a) xs = []" by simp
    have "\<forall>u. length (filter (\<lambda>x. f x = u) xs) \<le> 1"
    proof
      fix u
      from c have "length (filter (\<lambda>x. f x = u) (a # xs)) \<le> 1" by blast
      then show "length (filter (\<lambda>x. f x = u) xs) \<le> 1" by (simp split: if_splits)
    qed
    with Cons.IH e none show "distinct (map f (a # xs))" by simp
  qed
qed

lemma pending_unique_count:
  "pending_unique ev \<longleftrightarrow> (\<forall>u. pending_count u ev \<le> 1)"
  by (simp add: pending_unique_def pending_count_def distinct_map_count conj_commute)

lemma one_pending_per_user_count:
  "one_pending_per_user s \<longleftrightarrow> (\<forall>ev \<in> set (events s). \<forall>u. pending_count u ev \<le> 1)"
  by (simp add: one_pending_per_user_def list_all_iff pending_unique_count)


lemma findIndex_Some_decomp:
  "findIndex P xs = Some i \<Longrightarrow>
     \<exists>pre x post. xs = pre @ x # post \<and> i = length pre \<and> P x \<and> list_all (\<lambda>y. \<not> P y) pre"
proof -
  assume a: "findIndex P xs = Some i"
  then have "list_ex P xs"
    using findIndex_none [of P xs] by auto
  from list_ex_decomp [OF this] obtain pre x post
    where d: "xs = pre @ x # post" "P x" "list_all (\<lambda>y. \<not> P y) pre" by blast
  with a have "i = length pre"
    by (simp add: findIndex_decomp)
  with d show ?thesis by blast
qed

lemma findOne_in_set: "findOne s eventId = Inr ev \<Longrightarrow> ev \<in> set (events s)"
  by (auto simp: findOne_def split: option.splits dest: find_Some_decomp)

lemma set_update_first_const: "set (update_first P (\<lambda>d. y) xs) \<subseteq> insert y (set xs)"
  by (induction xs) auto

lemma one_pending_save_event:
  "one_pending_per_user s \<Longrightarrow> pending_unique ev' \<Longrightarrow> one_pending_per_user (save_event ev' s)"
  using set_update_first_const [of "\<lambda>d. event_id d = event_id ev'" ev' "events s"]
  by (auto simp: one_pending_per_user_def save_event_def list_all_iff)

lemma one_pending_findOne:
  "one_pending_per_user s \<Longrightarrow> findOne s eventId = Inr ev \<Longrightarrow> pending_unique ev"
  by (auto simp: one_pending_per_user_def list_all_iff dest: findOne_in_set)

lemma pending_unique_marketers [simp]:
  "pending_unique (ev\<lparr>marketers := ms\<rparr>) = pending_unique ev"
  by (simp add: pending_unique_def)

lemma pending_unique_push:
  "pending_unique ev \<Longrightarrow>
   \<not> list_ex (\<lambda>r. user r = userId \<and> status r = Pending) (conciergeRequests ev) \<Longrightarrow>
   user new = userId \<Longrightarrow>
   pending_unique (ev\<lparr>conciergeRequests := conciergeRequests ev @ [new]\<rparr>)"
  by (auto simp: pending_unique_def list_ex_iff)

lemma set_pending_update_first:
  "(\<And>r. status (f r) \<noteq> Pending) \<Longrightarrow>
     set (filter (\<lambda>r. status r = Pending) (update_first Q f rs)) \<subseteq>
     set (filter (\<lambda>r. status r = Pending) rs)"
  by (induction rs) auto

lemma distinct_pending_update_first:
  assumes f: "\<And>r. status (f r) \<noteq> Pending"
  shows "distinct (map user (filter (\<lambda>r. status r = Pending) rs)) \<Longrightarrow>
     distinct (map user (filter (\<lambda>r. status r = Pending) (update_first Q f rs)))"
proof (induction rs)
  case Nil
  then show ?case by simp
next
  case (Cons a rs)
  let ?pend = "\<lambda>r. status r = Pending"
  from Cons.prems have tl: "distinct (map user (filter ?pend rs))"
    by (cases "status a = Pending") simp_all
  show ?case
  proof (cases "Q a")
    case True
    then have "filter ?pend (update_first Q f (a # rs)) = filter ?pend rs"
      using f [of a] by simp
    with tl show ?thesis by simp
  next
    case False
    then have upd: "update_first Q f (a # rs) = a # update_first Q f rs" by simp
    have sub: "set (filter ?pend (update_first Q f rs)) \<subseteq> set (filter ?pend rs)"
      by (rule set_pending_update_first [OF f])
    show ?thesis
    proof (cases "status a = Pending")
      case True
      with Cons.prems have "user a \<notin> user ` set (filter ?pend rs)" by simp
      with sub have "user a \<notin> user ` set (filter ?pend (update_first Q f rs))" by blast
      with True Cons.IH [OF tl] show ?thesis unfolding upd by simp
    next
      case False
      with Cons.IH [OF tl] show ?thesis unfolding upd by simp
    qed
  qed
qed

lemma pending_unique_review:
  "pending_unique ev \<Longrightarrow> st \<noteq> Pending \<Longrightarrow>
   pending_unique (ev\<lparr>conciergeRequests :=
      update_first Q (\<lambda>r. r\<lparr>status := st, reviewedAt := t\<rparr>) (conciergeRequests ev)\<rparr>)"
  by (simp add: pending_unique_def distinct_pending_update_first)

lemma pending_unique_splice:
  "pending_unique ev \<Longrightarrow> conciergeRequests ev = pre @ x # post \<Longrightarrow>
   pending_unique (ev\<lparr>conciergeRequests := pre @ post\<rparr>)"
  by (auto simp: pending_unique_def split: if_splits)

lemma one_pending_request:
  "one_pending_per_user s \<Longrightarrow> one_pending_per_user (snd (requestConcierge en eventId userId s))"
  by (auto simp: requestConcierge_def Let_def split: sum.splits
      intro!: one_pending_save_event pending_unique_push dest: one_pending_findOne)

lemma one_pending_review:
  "one_pending_per_user s \<Longrightarrow>
   one_pending_per_user (snd (reviewConciergeRequest en eventId requestId approve adminId s))"
  by (auto simp: reviewConciergeRequest_def Let_def split: sum.splits option.splits
      intro!: one_pending_save_event pending_unique_review dest: one_pending_findOne)

lemma one_pending_cancel:
  "one_pending_per_user s \<Longrightarrow>
   one_pending_per_user (snd (cancelConciergeRequest en eventId userId s))"
proof (cases "findOne s eventId")
  case (Inl e)
  assume "one_pending_per_user s"
  with Inl show ?thesis by (simp add: cancelConciergeRequest_def)
next
  case (Inr ev)
  assume inv: "one_pending_per_user s"
  show ?thesis
  proof (cases "findIndex (\<lambda>r. user r = userId \<and> status r = Pending) (conciergeRequests ev)")
    case None
    with Inr inv show ?thesis by (simp add: cancelConciergeRequest_def)
  next
    case (Some i)
    from findIndex_Some_decomp [OF Some] obtain pre x post
      where d: "conciergeRequests ev = pre @ x # post" "i = length pre" by blast
    from inv Inr have "pending_unique ev" by (rule one_pending_findOne)
    from pending_unique_splice [OF this d(1)]
    have "pending_unique (ev\<lparr>conciergeRequests := splice1 i (conciergeRequests ev)\<rparr>)"
      by (simp add: d splice1_decomp)
    with Inr Some inv show ?thesis
      by (simp add: cancelConciergeRequest_def Let_def one_pending_save_event)
  qed
qed

lemma events_update_attendee [simp]: "events (update_attendee a c b t s) = events s"
  by (simp add: update_attendee_def)

lemma events_addEventParticipation [simp]: "events (addEventParticipation u e s) = events s"
  by (simp add: addEventParticipation_def)

lemma events_removeEventParticipation [simp]: "events (removeEventParticipation u e s) = events s"
  by (simp add: removeEventParticipation_def)

lemma events_checkInAttendee:
  "events (snd (checkInAttendee en eventId ph conciergeId s)) = events s"
  by (simp add: checkInAttendee_def checkInAttendee_try_def
      split: sum.splits list.splits prod.splits)

lemma one_pending_addEventParticipation [simp]:
  "one_pending_per_user (addEventParticipation u e s) = one_pending_per_user s"
  by (simp add: one_pending_per_user_def)

lemma one_pending_removeEventParticipation [simp]:
  "one_pending_per_user (removeEventParticipation u e s) = one_pending_per_user s"
  by (simp add: one_pending_per_user_def)

lemma one_pending_checkIn:
  "one_pending_per_user s \<Longrightarrow>
   one_pending_per_user (snd (checkInAttendee en eventId ph conciergeId s))"
  by (simp add: one_pending_per_user_def events_checkInAttendee)

lemma one_pending_join:
  "one_pending_per_user s \<Longrightarrow>
   one_pending_per_user (snd (addMarketerToEvent en eventId marketerId s))"
proof -
  assume inv: "one_pending_per_user s"
  show ?thesis
  proof (cases "findOne s eventId")
    case (Inl e)
    with inv show ?thesis by (simp add: addMarketerToEvent_unfold)
  next
    case (Inr ev)
    from inv Inr have "pending_unique ev" by (rule one_pending_findOne)
    then have "one_pending_per_user (save_event (ev\<lparr>marketers := marketers ev @ [marketerId]\<rparr>) s)"
      using inv by (simp add: one_pending_save_event)
    with inv Inr show ?thesis
      by (simp add: addMarketerToEvent_unfold Let_def split: sum.splits)
  qed
qed

lemma one_pending_leave:
  "one_pending_per_user s \<Longrightarrow>
   one_pending_per_user (snd (removeMarketerFromEvent en eventId marketerId s))"
  by (simp add: removeMarketerFromEvent_def removeMarketerFromEvent_try_unfold Let_def
      split: sum.splits)

lemma set_pending_requests:
  "set (pending_requests s) =
     {(event_id ev, r) | ev r. ev \<in> set (events s) \<and> r \<in> set (conciergeRequests ev) \<and>
        status r = Pending}"
  by (auto simp: pending_requests_def)

lemma pending_requests_save_event:
  assumes fo: "findOne s eventId = Inr ev"
    and eid: "event_id ev' = eventId"
    and sub: "set (filter (\<lambda>r. status r = Pending) (conciergeRequests ev')) \<subseteq>
              set (filter (\<lambda>r. status r = Pending) (conciergeRequests ev))"
  shows "set (pending_requests (save_event ev' s)) \<subseteq> set (pending_requests s)"
proof
  fix x
  assume "x \<in> set (pending_requests (save_event ev' s))"
  then obtain d r where x: "x = (event_id d, r)"
    and d: "d \<in> set (update_first (\<lambda>d. event_id d = event_id ev') (\<lambda>d. ev') (events s))"
    and r: "r \<in> set (conciergeRequests d)" "status r = Pending"
    by (auto simp: set_pending_requests save_event_def)
  from d set_update_first_const [of "\<lambda>d. event_id d = event_id ev'" ev' "events s"]
  have "d = ev' \<or> d \<in> set (events s)" by auto
  then show "x \<in> set (pending_requests s)"
  proof
    assume "d = ev'"
    with r sub have "r \<in> set (conciergeRequests ev)" by auto
    moreover from fo have "ev \<in> set (events s)" "event_id ev = eventId"
      by (simp_all add: findOne_in_set findOne_event_id)
    ultimately show ?thesis
      using x r eid \<open>d = ev'\<close> by (auto simp: set_pending_requests)
  next
    assume "d \<in> set (events s)"
    with x r show ?thesis by (auto simp: set_pending_requests)
  qed
qed

lemma pending_requests_events:
  "events s' = events s \<Longrightarrow> pending_requests s' = pending_requests s"
  by (simp add: pending_requests_def)

lemma no_new_pending_review:
  "set (pending_requests (snd (reviewConciergeRequest en eventId requestId approve adminId s)))
     \<subseteq> set (pending_requests s)"
proof (cases "findOne s eventId")
  case (Inl e)
  then show ?thesis by (simp add: reviewConciergeRequest_def)
next
  case (Inr ev)
  let ?f = "\<lambda>r. r\<lparr>status := (if approve then Approved else Rejected), reviewedAt := Some (now en)\<rparr>"
  let ?ev' = "ev\<lparr>conciergeRequests :=
      update_first (\<lambda>r. request_id r = requestId) ?f (conciergeRequests ev)\<rparr>"
  have "set (filter (\<lambda>r. status r = Pending) (conciergeRequests ?ev')) \<subseteq>
        set (filter (\<lambda>r. status r = Pending) (conciergeRequests ev))"
    using set_pending_update_first [of ?f "\<lambda>r. request_id r = requestId" "conciergeRequests ev"]
    by simp
  from pending_requests_save_event [OF Inr _ this]
  have "set (pending_requests (save_event ?ev' s)) \<subseteq> set (pending_requests s)"
    using findOne_event_id [OF Inr] by simp
  with Inr show ?thesis
    by (cases approve) (simp_all add: reviewConciergeRequest_def Let_def split: option.splits)
qed

lemma no_new_pending_cancel:
  "set (pending_requests (snd (cancelConciergeRequest en eventId userId s)))
     \<subseteq> set (pending_requests s)"
proof (cases "findOne s eventId")
  case (Inl e)
  then show ?thesis by (simp add: cancelConciergeRequest_def)
next
  case (Inr ev)
  have "\<And>i. set (filter (\<lambda>r. status r = Pending)
          (conciergeRequests (ev\<lparr>conciergeRequests := splice1 i (conciergeRequests ev)\<rparr>))) \<subseteq>
        set (filter (\<lambda>r. status r = Pending) (conciergeRequests ev))"
    by (auto simp: splice1_def dest: in_set_takeD in_set_dropD)
  from pending_requests_save_event [OF Inr _ this]
  have "\<And>i. set (pending_requests
           (save_event (ev\<lparr>conciergeRequests := splice1 i (conciergeRequests ev)\<rparr>) s))
        \<subseteq> set (pending_requests s)"
    using findOne_event_id [OF Inr] by simp
  with Inr show ?thesis
    by (simp add: cancelConciergeRequest_def Let_def split: option.splits)
qed

lemma no_new_pending_checkIn:
  "set (pending_requests (snd (checkInAttendee en eventId ph conciergeId s)))
     \<subseteq> set (pending_requests s)"
  by (simp add: pending_requests_events [OF events_checkInAttendee])

lemma pending_requests_addEventParticipation [simp]:
  "pending_requests (addEventParticipation u e s) = pending_requests s"
  by (simp add: pending_requests_def)

lemma pending_requests_removeEventParticipation [simp]:
  "pending_requests (removeEventParticipation u e s) = pending_requests s"
  by (simp add: pending_requests_def)

lemma no_new_pending_join:
  "set (pending_requests (snd (addMarketerToEvent en eventId marketerId s)))
     \<subseteq> set (pending_requests s)"
proof (cases "findOne s eventId")
  case (Inl e)
  then show ?thesis by (simp add: addMarketerToEvent_unfold)
next
  case (Inr ev)
  from pending_requests_save_event [OF Inr, of "ev\<lparr>marketers := marketers ev @ [marketerId]\<rparr>"]
  have "set (pending_requests (save_event (ev\<lparr>marketers := marketers ev @ [marketerId]\<rparr>) s))
        \<subseteq> set (pending_requests s)"
    using findOne_event_id [OF Inr] by simp
  with Inr show ?thesis
    by (simp add: addMarketerToEvent_unfold Let_def split: sum.splits)
qed

lemma no_new_pending_leave:
  "set (pending_requests (snd (removeMarketerFromEvent en eventId marketerId s)))
     \<subseteq> set (pending_requests s)"
  by (simp add: removeMarketerFromEvent_def removeMarketerFromEvent_try_unfold Let_def
      split: sum.splits)

lemma request_conflict:
  "findOne s eventId = Inr ev \<Longrightarrow>
   list_ex (\<lambda>r. user r = userId \<and> status r = Pending) (conciergeRequests ev) \<Longrightarrow>
   requestConcierge en eventId userId s = (Inl (HttpException BAD_REQUEST), s)"
  by (simp add: requestConcierge_def)

lemma request_appends:
  assumes fo: "findOne s eventId = Inr ev"
    and np: "\<not> list_ex (\<lambda>r. user r = userId \<and> status r = Pending) (conciergeRequests ev)"
    and sv: "eventSave en"
  shows "fst (requestConcierge en eventId userId s) = Inr ''Request submitted for admin approval''"
    and "findOne (snd (requestConcierge en eventId userId s)) eventId =
      Inr (ev\<lparr>conciergeRequests := conciergeRequests ev @
             [\<lparr>request_id = newId en, user = userId, status = Pending,
               requestedAt = now en, reviewedAt = None, reviewedBy = None\<rparr>]\<rparr>)"
proof -
  let ?ev' = "ev\<lparr>conciergeRequests := conciergeRequests ev @
             [\<lparr>request_id = newId en, user = userId, status = Pending,
               requestedAt = now en, reviewedAt = None, reviewedBy = None\<rparr>]\<rparr>"
  from fo np sv have res: "requestConcierge en eventId userId s =
      (Inr ''Request submitted for admin approval'', save_event ?ev' s)"
    by (simp add: requestConcierge_def Let_def)
  show "fst (requestConcierge en eventId userId s) = Inr ''Request submitted for admin approval''"
    by (simp add: res)
  have "event_id ?ev' = eventId"
    using findOne_event_id [OF fo] by simp
  from findOne_save_event [OF fo this]
  show "findOne (snd (requestConcierge en eventId userId s)) eventId = Inr ?ev'"
    by (simp add: res)
qed

section \<open>At most one pending request per event and user\<close>

text \<open>
  Claim C1. A store keeps the invariant exactly when no user has more than one \<open>Pending\<close>
  request on any event. \<open>requestConcierge\<close> on an existing event fails with the
  \<open>BAD_REQUEST\<close> exception (the spec's Conflict) when the user already has a \<open>Pending\<close>
  request there; otherwise, whatever \<open>Approved\<close> or \<open>Rejected\<close> requests the user has,
  and the save resolving, it appends a \<open>Pending\<close> request whose \<open>requestedAt\<close> is the
  time of the call. Review, cancel, check-in, join and leave add no \<open>Pending\<close> request to
  the store, and each of the six operations, run as a whole on a store that keeps the
  invariant, leaves a store that keeps it.
\<close>

theorem one_pending_request_per_user:
  "(one_pending_per_user s \<longleftrightarrow> (\<forall>ev \<in> set (events s). \<forall>u. pending_count u ev \<le> 1)) \<and>
   (findOne s eventId = Inr ev \<and>
      list_ex (\<lambda>r. user r = userId \<and> status r = Pending) (conciergeRequests ev) \<longrightarrow>
      requestConcierge en eventId userId s = (Inl (HttpException BAD_REQUEST), s)) \<and>
   (findOne s eventId = Inr ev \<and>
      \<not> list_ex (\<lambda>r. user r = userId \<and> status r = Pending) (conciergeRequests ev) \<and>
      eventSave en \<longrightarrow>
      fst (requestConcierge en eventId userId s) = Inr ''Request submitted for admin approval'' \<and>
      findOne (snd (requestConcierge en eventId userId s)) eventId =
        Inr (ev\<lparr>conciergeRequests := conciergeRequests ev @
               [\<lparr>request_id = newId en, user = userId, status = Pending,
                 requestedAt = now en, reviewedAt = None, reviewedBy = None\<rparr>]\<rparr>)) \<and>
   set (pending_requests (snd (reviewConciergeRequest en eventId requestId approve adminId s)))
     \<subseteq> set (pending_requests s) \<and>
   set (pending_requests (snd (cancelConciergeRequest en eventId userId s)))
     \<subseteq> set (pending_requests s) \<and>
   set (pending_requests (snd (checkInAttendee en eventId ph userId s)))
     \<subseteq> set (pending_requests s) \<and>
   set (pending_requests (snd (addMarketerToEvent en eventId userId s)))
     \<subseteq> set (pending_requests s) \<and>
   set (pending_requests (snd (removeMarketerFromEvent en eventId userId s)))
     \<subseteq> set (pending_requests s) \<and>
   (one_pending_per_user s \<longrightarrow>
      one_pending_per_user (snd (requestConcierge en eventId userId s)) \<and>
      one_pending_per_user (snd (reviewConciergeRequest en eventId requestId approve adminId s)) \<and>
      one_pending_per_user (snd (cancelConciergeRequest en eventId userId s)) \<and>
      one_pending_per_user (snd (checkInAttendee en eventId ph userId s)) \<and>
      one_pending_per_user (snd (addMarketerToEvent en eventId userId s)) \<and>
      one_pending_per_user (snd (removeMarketerFromEvent en eventId userId s)))"
proof (intro conjI impI)
  show "one_pending_per_user s \<longleftrightarrow> (\<forall>ev \<in> set (events s). \<forall>u. pending_count u ev \<le> 1)"
    by (rule one_pending_per_user_count)
qed (simp_all add: request_conflict request_appends no_new_pending_review no_new_pending_cancel
      no_new_pending_checkIn no_new_pending_join no_new_pending_leave
      one_pending_request one_pending_review one_pending_cancel one_pending_checkIn
      one_pending_join one_pending_leave)


theorem one_pending_request_per_user_witness:
  "one_pending_per_user store1 \<and>
   requestConcierge env1 ''e1'' ''c1'' store1 = (Inl (HttpException BAD_REQUEST), store1) \<and>
   fst (requestConcierge env1 ''e1'' ''c2'' store1) = Inr ''Request submitted for admin approval'' \<and>
   findOne (snd (requestConcierge env1 ''e1'' ''c2'' store1)) ''e1'' =
     Inr (event1\<lparr>conciergeRequests :=
            [req1, req2, req3,
             \<lparr>request_id = ''r4'', user = ''c2'', status = Pending, requestedAt = 10,
              reviewedAt = None, reviewedBy = None\<rparr>]\<rparr>) \<and>
   one_pending_per_user (snd (requestConcierge env1 ''e1'' ''c2'' store1)) \<and>
   one_pending_per_user (snd (reviewConciergeRequest env1 ''e1'' ''r2'' True ''admin'' store1)) \<and>
   one_pending_per_user (snd (cancelConciergeRequest env1 ''e1'' ''c2'' store1)) \<and>
   one_pending_per_user (snd (checkInAttendee env1 ''e1'' ''+15551234567'' ''c2'' store1)) \<and>
   one_pending_per_user (snd (addMarketerToEvent env1 ''e1'' ''c2'' store1)) \<and>
   one_pending_per_user (snd (removeMarketerFromEvent env1 ''e1'' ''c2'' store1))"
proof -
  have inv: "one_pending_per_user store1"
    by (simp add: one_pending_per_user_def pending_unique_def ex_defs)
  have found: "findOne store1 ''e1'' = Inr event1"
    by (simp add: findOne_def ex_defs)
  have facts: "list_ex (\<lambda>r. user r = ''c1'' \<and> status r = Pending) (conciergeRequests event1)"
      "\<not> list_ex (\<lambda>r. user r = ''c2'' \<and> status r = Pending) (conciergeRequests event1)"
      "eventSave env1" "newId env1 = ''r4''" "now env1 = 10"
      "conciergeRequests event1 = [req1, req2, req3]"
    by (simp_all add: ex_defs)
  note a = one_pending_request_per_user [where s = store1 and eventId = "''e1''" and ev = event1
      and userId = "''c1''" and en = env1]
  note b = one_pending_request_per_user [where s = store1 and eventId = "''e1''" and ev = event1
      and userId = "''c2''" and en = env1 and requestId = "''r2''" and approve = True
      and adminId = "''admin''" and ph = "''+15551234567''"]
  from a found facts
  have 1: "requestConcierge env1 ''e1'' ''c1'' store1 = (Inl (HttpException BAD_REQUEST), store1)"
    by blast
  from b found facts
  have 2: "fst (requestConcierge env1 ''e1'' ''c2'' store1) =
      Inr ''Request submitted for admin approval'' \<and>
    findOne (snd (requestConcierge env1 ''e1'' ''c2'' store1)) ''e1'' =
     Inr (event1\<lparr>conciergeRequests :=
            [req1, req2, req3,
             \<lparr>request_id = ''r4'', user = ''c2'', status = Pending, requestedAt = 10,
              reviewedAt = None, reviewedBy = None\<rparr>]\<rparr>)"
    by simp
  from b inv
  have 3: "one_pending_per_user (snd (requestConcierge env1 ''e1'' ''c2'' store1)) \<and>
   one_pending_per_user (snd (reviewConciergeRequest env1 ''e1'' ''r2'' True ''admin'' store1)) \<and>
   one_pending_per_user (snd (cancelConciergeRequest env1 ''e1'' ''c2'' store1)) \<and>
   one_pending_per_user (snd (checkInAttendee env1 ''e1'' ''+15551234567'' ''c2'' store1)) \<and>
   one_pending_per_user (snd (addMarketerToEvent env1 ''e1'' ''c2'' store1)) \<and>
   one_pending_per_user (snd (removeMarketerFromEvent env1 ''e1'' ''c2'' store1))"
    by blast
  from inv 1 2 3 show ?thesis by blast
qed

section \<open>Joining an event\<close>

lemma findById_save_event [simp]: "findById (save_event ev s) userId = findById s userId"
  by (simp add: findById_def save_event_def)

lemma findOne_addEventParticipation [simp]:
  "findOne (addEventParticipation u e s) eventId = findOne s eventId"
  by (simp add: findOne_def)

lemma findOne_removeEventParticipation [simp]:
  "findOne (removeEventParticipation u e s) eventId = findOne s eventId"
  by (simp add: findOne_def)

text \<open>
  Claim C3. The code does not do what the claim says. In \<open>store1\<close> the marketer \<open>u2\<close> is
  already among the marketers of \<open>e1\<close>. The join of \<open>u2\<close> is not a no-op: the membership
  test looks at populated documents and never holds, so the identifier is appended again
  and the event is saved with \<open>u2\<close> twice. For the same reason a second join of \<open>u1\<close>
  does not leave the store of the first: the event ends with \<open>u1\<close> twice.
\<close>

theorem join_of_member_appends_again:
  "findOne store1 ''e1'' = Inr event1 \<and> marketers event1 = [''u2''] \<and>
   findById store1 ''u2'' =
     Inr \<lparr>user_id = ''u2'', role = MARKETER, eventParticipation = [''e1'']\<rparr> \<and>
   addMarketerToEvent env1 ''e1'' ''u2'' store1 =
     (Inr (event1\<lparr>marketers := [''u2'', ''u2'']\<rparr>),
      store1\<lparr>events := [event1\<lparr>marketers := [''u2'', ''u2'']\<rparr>]\<rparr>) \<and>
   findOne (snd (addMarketerToEvent env1 ''e1'' ''u1'' store1)) ''e1'' =
     Inr (event1\<lparr>marketers := [''u2'', ''u1'']\<rparr>) \<and>
   findOne (snd (addMarketerToEvent env1 ''e1'' ''u1''
                   (snd (addMarketerToEvent env1 ''e1'' ''u1'' store1)))) ''e1'' =
     Inr (event1\<lparr>marketers := [''u2'', ''u1'', ''u1'']\<rparr>)"
  by (simp add: addMarketerToEvent_def populate_def findOne_def findById_def save_event_def
      addEventParticipation_def Let_def ex_defs)

section \<open>Join and leave when one of the two writes fails\<close>








section \<open>Leaving an event that does not exist\<close>

text \<open>
  Claim C9. The code does not do what the claim says: for an event that does not exist,
  \<open>findOne\<close> fails with \<open>NotFoundException\<close>, and so does the body of
  \<open>removeMarketerFromEvent\<close>, but the \<open>catch\<close> clause of \<open>removeMarketerFromEvent\<close>
  reports the \<open>INTERNAL_SERVER_ERROR\<close> exception. \<open>checkInAttendee\<close>, whose \<open>catch\<close> clause
  throws the exceptions of the service again as they are, reports \<open>NotFoundException\<close>
  for the same event.
\<close>

theorem leave_missing_event_is_internal_error:
  "findOne store1 ''e9'' = Inl NotFoundException \<and>
   removeMarketerFromEvent_try env1 ''e9'' ''u2'' store1 = (Inl NotFoundException, store1) \<and>
   removeMarketerFromEvent env1 ''e9'' ''u2'' store1 =
     (Inl (HttpException INTERNAL_SERVER_ERROR), store1) \<and>
   checkInAttendee env1 ''e9'' ''+15551234567'' ''c2'' store1 = (Inl NotFoundException, store1)"
  by (simp add: removeMarketerFromEvent_def removeMarketerFromEvent_try_def
      checkInAttendee_def checkInAttendee_try_def findOne_def ex_defs)

section \<open>The status of a user's request\<close>

lemma myConciergeStatus_first:
  "conciergeRequests ev = pre @ r # post \<Longrightarrow> list_all (\<lambda>x. user x \<noteq> userId) pre \<Longrightarrow>
   user r = userId \<Longrightarrow> myConciergeStatus userId ev = Some (status r)"
  by (simp add: myConciergeStatus_def find_decomp_eq)

lemma myConciergeStatus_none:
  "myConciergeStatus userId ev = None \<longleftrightarrow>
     \<not> list_ex (\<lambda>x. user x = userId) (conciergeRequests ev)"
  by (simp add: myConciergeStatus_def find_none_list_ex [symmetric] split: option.splits)

text \<open>
  Claim C8, as the specification states it, fails on the code. After \<open>c1\<close> has requested,
  been rejected and requested again, the event holds a \<open>Rejected\<close> request of \<open>c1\<close>
  created at time 1 and a \<open>Pending\<close> one created at time 3. \<open>getConciergeAssignments\<close>
  attaches \<open>Rejected\<close>, the status of the older request; the most recently created
  request is \<open>Pending\<close>.
\<close>

theorem myStatus_counterexample:
  "findOne store_rerequested ''e1'' =
     Inr \<lparr>event_id = ''e1'', marketers = [],
          conciergeRequests =
            [\<lparr>request_id = ''r1'', user = ''c1'', status = Rejected, requestedAt = 1,
              reviewedAt = Some 2, reviewedBy = None\<rparr>,
             \<lparr>request_id = ''r2'', user = ''c1'', status = Pending, requestedAt = 3,
              reviewedAt = None, reviewedBy = None\<rparr>]\<rparr> \<and>
   map snd (getConciergeAssignments ''c1'' store_rerequested) = [Some Rejected] \<and>
   map (spec_myStatus ''c1'') (events store_rerequested) = [Some Pending]"
  by (simp add: store_rerequested_def requestConcierge_def reviewConciergeRequest_def
      getConciergeAssignments_def myConciergeStatus_def spec_myStatus_def
      findOne_def save_event_def Let_def store0_def ex_defs)

text \<open>
  Claim C8, amended. The status that \<open>getConciergeAssignments\<close> attaches to an event is
  the status of the first request of the user in request order, that is, of the earliest
  created one; it is \<open>None\<close> when the user has no request on the event, and the result
  lists exactly the events of the store on which the user has a request.
\<close>

theorem myStatus_is_first_request:
  "(conciergeRequests ev = pre @ r # post \<and> list_all (\<lambda>x. user x \<noteq> userId) pre \<and>
      user r = userId \<longrightarrow> myConciergeStatus userId ev = Some (status r)) \<and>
   (\<not> list_ex (\<lambda>x. user x = userId) (conciergeRequests ev) \<longrightarrow>
      myConciergeStatus userId ev = None) \<and>
   set (getConciergeAssignments userId s) =
     {(ev, myConciergeStatus userId ev) | ev.
        ev \<in> set (events s) \<and> myConciergeStatus userId ev \<noteq> None}"
proof (intro conjI impI)
  show "set (getConciergeAssignments userId s) =
     {(ev, myConciergeStatus userId ev) | ev.
        ev \<in> set (events s) \<and> myConciergeStatus userId ev \<noteq> None}"
    by (auto simp: getConciergeAssignments_def myConciergeStatus_none)
qed (simp_all add: myConciergeStatus_first myConciergeStatus_none)

theorem myStatus_is_first_request_witness:
  "myConciergeStatus ''c1'' event1 = Some Rejected \<and>
   myConciergeStatus ''u1'' event1 = None \<and>
   set (getConciergeAssignments ''c1'' store1) = {(event1, Some Rejected)} \<and>
   set (getConciergeAssignments ''u1'' store1) = {}"
proof -
  have facts: "conciergeRequests event1 = [] @ req1 # [req2, req3]"
      "list_all (\<lambda>x. user x \<noteq> ''c1'') []" "user req1 = ''c1''" "status req1 = Rejected"
      "\<not> list_ex (\<lambda>x. user x = ''u1'') (conciergeRequests event1)"
      "events store1 = [event1]"
    by (simp_all add: ex_defs)
  note a = myStatus_is_first_request [where ev = event1 and pre = "[]" and r = req1
      and post = "[req2, req3]" and userId = "''c1''" and s = store1]
  note b = myStatus_is_first_request [where ev = event1 and userId = "''u1''" and s = store1]
  from a facts have 1: "myConciergeStatus ''c1'' event1 = Some Rejected" by simp
  from b facts have 2: "myConciergeStatus ''u1'' event1 = None" by blast
  from a facts 1 have 3: "set (getConciergeAssignments ''c1'' store1) = {(event1, Some Rejected)}"
    by auto
  from b facts 2 have 4: "set (getConciergeAssignments ''u1'' store1) = {}"
    by auto
  from 1 2 3 4 show ?thesis by blast
qed

section \<open>Check-in: authorisation and lookup\<close>

lemma length_update_first [simp]: "length (update_first P f xs) = length xs"
  by (induction xs) auto

lemma nth_update_first_other:
  "i < length xs \<Longrightarrow> \<not> P (xs ! i) \<Longrightarrow> update_first P f xs ! i = xs ! i"
proof (induction xs arbitrary: i)
  case Nil
  then show ?case by simp
next
  case (Cons a xs)
  show ?case
  proof (cases i)
    case 0
    with Cons.prems show ?thesis by simp
  next
    case (Suc j)
    with Cons.prems Cons.IH [of j] show ?thesis by simp
  qed
qed

lemma findOne_update_attendee [simp]:
  "findOne (update_attendee a c b t s) eventId = findOne s eventId"
  by (simp add: findOne_def)

lemma findByQuery_first:
  "attendees s = pre @ attendee # post \<Longrightarrow>
   list_all (\<lambda>a. \<not> (phone a = ph \<and> event a = eventId)) pre \<Longrightarrow>
   phone attendee = ph \<Longrightarrow> event attendee = eventId \<Longrightarrow>
   findByQuery s ph eventId =
     attendee # filter (\<lambda>a. phone a = ph \<and> event a = eventId) post"
proof -
  assume a: "attendees s = pre @ attendee # post"
    and n: "list_all (\<lambda>a. \<not> (phone a = ph \<and> event a = eventId)) pre"
    and m: "phone attendee = ph" "event attendee = eventId"
  from n have "filter (\<lambda>a. phone a = ph \<and> event a = eventId) pre = []"
    by (simp add: filter_empty_conv list_all_iff)
  with a m show ?thesis by (simp add: findByQuery_def)
qed

lemma findByQuery_none:
  "\<not> list_ex (\<lambda>a. phone a = ph \<and> event a = eventId) (attendees s) \<Longrightarrow>
   findByQuery s ph eventId = []"
  by (simp add: findByQuery_def filter_empty_conv list_ex_iff)

lemma checkIn_unauthorized:
  "findOne s eventId = Inr ev \<Longrightarrow>
   \<not> list_ex (\<lambda>req. user req = conciergeId \<and> status req = Approved) (conciergeRequests ev) \<Longrightarrow>
   checkInAttendee en eventId ph conciergeId s = (Inl UnauthorizedException, s)"
  by (simp add: checkInAttendee_def checkInAttendee_try_def)

lemma checkIn_not_found:
  "findOne s eventId = Inr ev \<Longrightarrow>
   list_ex (\<lambda>req. user req = conciergeId \<and> status req = Approved) (conciergeRequests ev) \<Longrightarrow>
   \<not> list_ex (\<lambda>a. phone a = ph \<and> event a = eventId) (attendees s) \<Longrightarrow>
   checkInAttendee en eventId ph conciergeId s = (Inl NotFoundException, s)"
  by (simp add: checkInAttendee_def checkInAttendee_try_def findByQuery_none)

lemma checkIn_first:
  assumes fo: "findOne s eventId = Inr ev"
    and ap: "list_ex (\<lambda>req. user req = conciergeId \<and> status req = Approved) (conciergeRequests ev)"
    and at: "attendees s = pre @ attendee # post"
    and pre: "list_all (\<lambda>a. \<not> (phone a = ph \<and> event a = eventId)) pre"
    and m: "phone attendee = ph" "event attendee = eventId"
  shows "checkInAttendee en eventId ph conciergeId s =
      (if checkedIn attendee then (Inl (HttpException BAD_REQUEST), s)
       else if attendeeUpdate en
       then (Inr ''Attendee checked in successfully'',
             update_attendee (attendee_id attendee) True conciergeId (now en) s)
       else (Inl (HttpException INTERNAL_SERVER_ERROR), s))"
  using fo ap findByQuery_first [OF at pre m]
  by (simp add: checkInAttendee_def checkInAttendee_try_def)

lemma checkIn_failure_unchanged:
  "fst (checkInAttendee en eventId ph conciergeId s) = Inl e \<Longrightarrow>
   snd (checkInAttendee en eventId ph conciergeId s) = s"
  by (auto simp: checkInAttendee_def checkInAttendee_try_def
      split: sum.splits list.splits if_splits)

text \<open>
  Claim C6. On an existing event, \<open>checkInAttendee\<close> fails with
  \<open>UnauthorizedException\<close> (the spec's Forbidden) when the event has no \<open>Approved\<close>
  request of the calling concierge. When the concierge is approved and no attendee of the
  collection has the event and the phone number, it fails with \<open>NotFoundException\<close>.
  When attendees match, the first of them in the order of the collection decides the
  call, whatever comes after it: the call fails if that attendee is checked in, and
  otherwise updates the attendee with that attendee's identifier.
\<close>

theorem checkIn_guards:
  "findOne s eventId = Inr ev \<longrightarrow>
     (\<not> list_ex (\<lambda>req. user req = conciergeId \<and> status req = Approved) (conciergeRequests ev) \<longrightarrow>
        checkInAttendee en eventId ph conciergeId s = (Inl UnauthorizedException, s)) \<and>
     (list_ex (\<lambda>req. user req = conciergeId \<and> status req = Approved) (conciergeRequests ev) \<and>
      \<not> list_ex (\<lambda>a. phone a = ph \<and> event a = eventId) (attendees s) \<longrightarrow>
        checkInAttendee en eventId ph conciergeId s = (Inl NotFoundException, s)) \<and>
     (list_ex (\<lambda>req. user req = conciergeId \<and> status req = Approved) (conciergeRequests ev) \<and>
      attendees s = pre @ attendee # post \<and>
      list_all (\<lambda>a. \<not> (phone a = ph \<and> event a = eventId)) pre \<and>
      phone attendee = ph \<and> event attendee = eventId \<longrightarrow>
        checkInAttendee en eventId ph conciergeId s =
          (if checkedIn attendee then (Inl (HttpException BAD_REQUEST), s)
           else if attendeeUpdate en
           then (Inr ''Attendee checked in successfully'',
                 update_attendee (attendee_id attendee) True conciergeId (now en) s)
           else (Inl (HttpException INTERNAL_SERVER_ERROR), s)))"
proof (intro conjI impI)
  assume fo: "findOne s eventId = Inr ev"
  assume "list_ex (\<lambda>req. user req = conciergeId \<and> status req = Approved) (conciergeRequests ev) \<and>
      attendees s = pre @ attendee # post \<and>
      list_all (\<lambda>a. \<not> (phone a = ph \<and> event a = eventId)) pre \<and>
      phone attendee = ph \<and> event attendee = eventId"
  then show "checkInAttendee en eventId ph conciergeId s =
          (if checkedIn attendee then (Inl (HttpException BAD_REQUEST), s)
           else if attendeeUpdate en
           then (Inr ''Attendee checked in successfully'',
                 update_attendee (attendee_id attendee) True conciergeId (now en) s)
           else (Inl (HttpException INTERNAL_SERVER_ERROR), s))"
    using checkIn_first [OF fo, of conciergeId pre attendee post ph en] by blast
qed (simp_all add: checkIn_unauthorized checkIn_not_found)

theorem checkIn_guards_witness:
  "checkInAttendee env1 ''e1'' ''+15551234567'' ''c1'' store1 = (Inl UnauthorizedException, store1) \<and>
   checkInAttendee env1 ''e1'' ''+15559999999'' ''c2'' store1 = (Inl NotFoundException, store1) \<and>
   findByQuery store1 ''+15551234567'' ''e1'' = [att1, att2] \<and>
   checkInAttendee env1 ''e1'' ''+15551234567'' ''c2'' store1 =
     (Inr ''Attendee checked in successfully'',
      store1\<lparr>attendees :=
        [att1\<lparr>checkedIn := True, checkedInBy := Some ''c2'', checkedInTime := Some 10\<rparr>,
         att2, att3]\<rparr>)"
proof -
  have found: "findOne store1 ''e1'' = Inr event1"
    by (simp add: findOne_def ex_defs)
  have facts:
      "\<not> list_ex (\<lambda>req. user req = ''c1'' \<and> status req = Approved) (conciergeRequests event1)"
      "list_ex (\<lambda>req. user req = ''c2'' \<and> status req = Approved) (conciergeRequests event1)"
      "\<not> list_ex (\<lambda>a. phone a = ''+15559999999'' \<and> event a = ''e1'') (attendees store1)"
      "attendees store1 = [] @ att1 # [att2, att3]"
      "phone att1 = ''+15551234567''" "event att1 = ''e1''" "\<not> checkedIn att1"
      "attendeeUpdate env1" "now env1 = 10" "attendee_id att1 = ''a1''"
    by (simp_all add: ex_defs)
  have q: "findByQuery store1 ''+15551234567'' ''e1'' = [att1, att2]"
    by (simp add: findByQuery_def ex_defs)
  have upd: "update_attendee ''a1'' True ''c2'' 10 store1 =
      store1\<lparr>attendees :=
        [att1\<lparr>checkedIn := True, checkedInBy := Some ''c2'', checkedInTime := Some 10\<rparr>,
         att2, att3]\<rparr>"
    by (simp add: update_attendee_def ex_defs)
  note a = checkIn_guards [where s = store1 and eventId = "''e1''" and ev = event1
      and conciergeId = "''c1''" and en = env1 and ph = "''+15551234567''"]
  note b = checkIn_guards [where s = store1 and eventId = "''e1''" and ev = event1
      and conciergeId = "''c2''" and en = env1 and ph = "''+15559999999''"]
  note c = checkIn_guards [where s = store1 and eventId = "''e1''" and ev = event1
      and conciergeId = "''c2''" and en = env1 and ph = "''+15551234567''"
      and pre = "[]" and attendee = att1 and post = "[att2, att3]"]
  from a found facts(1)
  have 1: "checkInAttendee env1 ''e1'' ''+15551234567'' ''c1'' store1 =
      (Inl UnauthorizedException, store1)" by blast
  from b found facts(2,3)
  have 2: "checkInAttendee env1 ''e1'' ''+15559999999'' ''c2'' store1 =
      (Inl NotFoundException, store1)" by blast
  from c found facts upd
  have 3: "checkInAttendee env1 ''e1'' ''+15551234567'' ''c2'' store1 =
     (Inr ''Attendee checked in successfully'',
      store1\<lparr>attendees :=
        [att1\<lparr>checkedIn := True, checkedInBy := Some ''c2'', checkedInTime := Some 10\<rparr>,
         att2, att3]\<rparr>)" by simp
  from 1 2 q 3 show ?thesis by blast
qed

section \<open>Check-in happens once\<close>

lemma distinct_ids_pre:
  "distinct (map attendee_id (pre @ attendee # post)) \<Longrightarrow>
   list_all (\<lambda>a. \<not> attendee_id a = attendee_id attendee) pre"
  by (force simp: list_all_iff image_iff)

lemma update_attendee_first:
  assumes d: "distinct (map attendee_id (attendees s))"
    and at: "attendees s = pre @ attendee # post"
  shows "attendees (update_attendee (attendee_id attendee) ci cby t s) =
      pre @ attendee\<lparr>checkedIn := ci, checkedInBy := Some cby, checkedInTime := Some t\<rparr> # post"
proof -
  from d at have "list_all (\<lambda>a. \<not> attendee_id a = attendee_id attendee) pre"
    using distinct_ids_pre [of pre attendee post] by simp
  then show ?thesis
    by (simp add: update_attendee_def at update_first_decomp)
qed

lemma checkIn_success_shape:
  assumes ok: "fst (checkInAttendee en eventId ph conciergeId s) = Inr v"
  shows "\<exists>attendee. attendee \<in> set (attendees s) \<and> \<not> checkedIn attendee \<and>
      snd (checkInAttendee en eventId ph conciergeId s) =
        update_attendee (attendee_id attendee) True conciergeId (now en) s"
proof -
  from ok obtain ev where fo: "findOne s eventId = Inr ev"
    by (cases "findOne s eventId")
       (simp_all add: checkInAttendee_def checkInAttendee_try_def)
  from ok fo obtain attendee rest where q: "findByQuery s ph eventId = attendee # rest"
    by (cases "findByQuery s ph eventId")
       (simp_all add: checkInAttendee_def checkInAttendee_try_def split: if_splits)
  then have "attendee \<in> set (filter (\<lambda>a. phone a = ph \<and> event a = eventId) (attendees s))"
    by (simp add: findByQuery_def)
  then have mem: "attendee \<in> set (attendees s)" by simp
  from ok fo q have "\<not> checkedIn attendee \<and>
      snd (checkInAttendee en eventId ph conciergeId s) =
        update_attendee (attendee_id attendee) True conciergeId (now en) s"
    by (simp add: checkInAttendee_def checkInAttendee_try_def split: if_splits)
  with mem show ?thesis by blast
qed

lemma checkIn_keeps_checked_in:
  assumes d: "distinct (map attendee_id (attendees s))"
    and i: "i < length (attendees s)" and c: "checkedIn (attendees s ! i)"
  shows "attendees (snd (checkInAttendee en eventId ph conciergeId s)) ! i = attendees s ! i"
proof (cases "fst (checkInAttendee en eventId ph conciergeId s)")
  case (Inl e)
  then show ?thesis by (simp add: checkIn_failure_unchanged)
next
  case (Inr v)
  from checkIn_success_shape [OF Inr] obtain attendee
    where mem: "attendee \<in> set (attendees s)" and nc: "\<not> checkedIn attendee"
      and res: "snd (checkInAttendee en eventId ph conciergeId s) =
        update_attendee (attendee_id attendee) True conciergeId (now en) s"
    by blast
  from i have mem': "attendees s ! i \<in> set (attendees s)" by simp
  from c nc have "attendees s ! i \<noteq> attendee" by auto
  with d mem mem' have "attendee_id (attendees s ! i) \<noteq> attendee_id attendee"
    by (auto simp: distinct_map dest: inj_onD)
  with i show ?thesis
    by (simp add: res update_attendee_def nth_update_first_other)
qed

lemma checkIn_length:
  "length (attendees (snd (checkInAttendee en eventId ph conciergeId s))) = length (attendees s)"
proof (cases "fst (checkInAttendee en eventId ph conciergeId s)")
  case (Inl e)
  then show ?thesis by (simp add: checkIn_failure_unchanged)
next
  case (Inr v)
  from checkIn_success_shape [OF Inr] show ?thesis
    by (auto simp: update_attendee_def)
qed

lemma checkIn_fresh:
  assumes d: "distinct (map attendee_id (attendees s))"
    and fo: "findOne s eventId = Inr ev"
    and ap: "list_ex (\<lambda>req. user req = conciergeId \<and> status req = Approved) (conciergeRequests ev)"
    and at: "attendees s = pre @ attendee # post"
    and pre: "list_all (\<lambda>a. \<not> (phone a = ph \<and> event a = eventId)) pre"
    and m: "phone attendee = ph" "event attendee = eventId"
    and nc: "\<not> checkedIn attendee" and w: "attendeeUpdate en"
  shows "fst (checkInAttendee en eventId ph conciergeId s) = Inr ''Attendee checked in successfully''"
    and "attendees (snd (checkInAttendee en eventId ph conciergeId s)) =
      pre @ attendee\<lparr>checkedIn := True, checkedInBy := Some conciergeId,
                      checkedInTime := Some (now en)\<rparr> # post"
    and "findOne (snd (checkInAttendee en eventId ph conciergeId s)) eventId = Inr ev"
  using checkIn_first [OF fo ap at pre m, of en] nc w update_attendee_first [OF d at] fo
  by simp_all

lemma checkIn_again:
  assumes d: "distinct (map attendee_id (attendees s))"
    and fo: "findOne s eventId = Inr ev"
    and ap: "list_ex (\<lambda>req. user req = conciergeId \<and> status req = Approved) (conciergeRequests ev)"
    and at: "attendees s = pre @ attendee # post"
    and pre: "list_all (\<lambda>a. \<not> (phone a = ph \<and> event a = eventId)) pre"
    and m: "phone attendee = ph" "event attendee = eventId"
    and nc: "\<not> checkedIn attendee" and w: "attendeeUpdate en"
    and ap2: "list_ex (\<lambda>req. user req = c2 \<and> status req = Approved) (conciergeRequests ev)"
  shows "checkInAttendee en2 eventId ph c2 (snd (checkInAttendee en eventId ph conciergeId s)) =
      (Inl (HttpException BAD_REQUEST), snd (checkInAttendee en eventId ph conciergeId s))"
proof -
  let ?s' = "snd (checkInAttendee en eventId ph conciergeId s)"
  let ?a' = "attendee\<lparr>checkedIn := True, checkedInBy := Some conciergeId,
                      checkedInTime := Some (now en)\<rparr>"
  note f = checkIn_fresh [OF d fo ap at pre m nc w]
  from m have m': "phone ?a' = ph" "event ?a' = eventId" by simp_all
  from checkIn_first [OF f(3) ap2 f(2) pre m', of en2] show ?thesis by simp
qed

text \<open>
  Claim C5. In a collection whose attendees have pairwise different identifiers, a call of
  \<open>checkInAttendee\<close> keeps the number of attendees, leaves every attendee that is
  checked in exactly as it was (so \<open>checkedIn\<close> never goes back to false, and
  \<open>checkedInBy\<close> and \<open>checkedInTime\<close> stay), and a call that fails changes nothing. For
  an approved concierge and the first attendee that matches the event and the phone
  number: if the attendee is checked in, the call fails with the \<open>BAD_REQUEST\<close> exception
  (the spec's Conflict); if not, and the update resolves, the call succeeds and sets
  \<open>checkedIn\<close>, \<open>checkedInBy\<close> to the concierge and \<open>checkedInTime\<close> to the time of the
  call, and a later call by an approved concierge for the same event and phone number
  fails with \<open>BAD_REQUEST\<close> and leaves the store of the first call.
\<close>

theorem checkIn_once:
  "distinct (map attendee_id (attendees s)) \<longrightarrow>
     length (attendees (snd (checkInAttendee en eventId ph conciergeId s))) =
       length (attendees s) \<and>
     (\<forall>i < length (attendees s). checkedIn (attendees s ! i) \<longrightarrow>
        attendees (snd (checkInAttendee en eventId ph conciergeId s)) ! i = attendees s ! i) \<and>
     (\<forall>e. fst (checkInAttendee en eventId ph conciergeId s) = Inl e \<longrightarrow>
        snd (checkInAttendee en eventId ph conciergeId s) = s) \<and>
     (findOne s eventId = Inr ev \<and>
      list_ex (\<lambda>req. user req = conciergeId \<and> status req = Approved) (conciergeRequests ev) \<and>
      attendees s = pre @ attendee # post \<and>
      list_all (\<lambda>a. \<not> (phone a = ph \<and> event a = eventId)) pre \<and>
      phone attendee = ph \<and> event attendee = eventId \<longrightarrow>
        (checkedIn attendee \<longrightarrow>
           checkInAttendee en eventId ph conciergeId s = (Inl (HttpException BAD_REQUEST), s)) \<and>
        (\<not> checkedIn attendee \<and> attendeeUpdate en \<longrightarrow>
           fst (checkInAttendee en eventId ph conciergeId s) =
             Inr ''Attendee checked in successfully'' \<and>
           attendees (snd (checkInAttendee en eventId ph conciergeId s)) =
             pre @ attendee\<lparr>checkedIn := True, checkedInBy := Some conciergeId,
                             checkedInTime := Some (now en)\<rparr> # post \<and>
           (list_ex (\<lambda>req. user req = c2 \<and> status req = Approved) (conciergeRequests ev) \<longrightarrow>
              checkInAttendee en2 eventId ph c2
                  (snd (checkInAttendee en eventId ph conciergeId s)) =
                (Inl (HttpException BAD_REQUEST),
                 snd (checkInAttendee en eventId ph conciergeId s)))))"
proof (intro conjI impI allI)
  assume d: "distinct (map attendee_id (attendees s))"
  assume a: "findOne s eventId = Inr ev \<and>
      list_ex (\<lambda>req. user req = conciergeId \<and> status req = Approved) (conciergeRequests ev) \<and>
      attendees s = pre @ attendee # post \<and>
      list_all (\<lambda>a. \<not> (phone a = ph \<and> event a = eventId)) pre \<and>
      phone attendee = ph \<and> event attendee = eventId"
  then have fo: "findOne s eventId = Inr ev"
    and ap: "list_ex (\<lambda>req. user req = conciergeId \<and> status req = Approved) (conciergeRequests ev)"
    and at: "attendees s = pre @ attendee # post"
    and pre: "list_all (\<lambda>a. \<not> (phone a = ph \<and> event a = eventId)) pre"
    and m: "phone attendee = ph" "event attendee = eventId"
    by blast+
  {
    assume "checkedIn attendee"
    with checkIn_first [OF fo ap at pre m, of en]
    show "checkInAttendee en eventId ph conciergeId s = (Inl (HttpException BAD_REQUEST), s)"
      by simp
  }
  assume b: "\<not> checkedIn attendee \<and> attendeeUpdate en"
  then have nc: "\<not> checkedIn attendee" and w: "attendeeUpdate en" by blast+
  note f = checkIn_fresh [OF d fo ap at pre m nc w]
  show "fst (checkInAttendee en eventId ph conciergeId s) = Inr ''Attendee checked in successfully''"
    by (rule f(1))
  show "attendees (snd (checkInAttendee en eventId ph conciergeId s)) =
             pre @ attendee\<lparr>checkedIn := True, checkedInBy := Some conciergeId,
                             checkedInTime := Some (now en)\<rparr> # post"
    by (rule f(2))
  assume "list_ex (\<lambda>req. user req = c2 \<and> status req = Approved) (conciergeRequests ev)"
  from checkIn_again [OF d fo ap at pre m nc w this]
  show "checkInAttendee en2 eventId ph c2 (snd (checkInAttendee en eventId ph conciergeId s)) =
      (Inl (HttpException BAD_REQUEST), snd (checkInAttendee en eventId ph conciergeId s))" .
qed (simp_all add: checkIn_length checkIn_keeps_checked_in checkIn_failure_unchanged)


theorem checkIn_once_witness:
  "distinct (map attendee_id (attendees store1)) \<and>
   fst (checkInAttendee env1 ''e1'' ''+15551234567'' ''c2'' store1) =
     Inr ''Attendee checked in successfully'' \<and>
   attendees (snd (checkInAttendee env1 ''e1'' ''+15551234567'' ''c2'' store1)) =
     [att1\<lparr>checkedIn := True, checkedInBy := Some ''c2'', checkedInTime := Some 10\<rparr>,
      att2, att3] \<and>
   checkInAttendee (env1\<lparr>now := 20\<rparr>) ''e1'' ''+15551234567'' ''c2''
       (snd (checkInAttendee env1 ''e1'' ''+15551234567'' ''c2'' store1)) =
     (Inl (HttpException BAD_REQUEST),
      snd (checkInAttendee env1 ''e1'' ''+15551234567'' ''c2'' store1)) \<and>
   checkInAttendee env1 ''e1'' ''+15550000000'' ''c2'' store1 =
     (Inl (HttpException BAD_REQUEST), store1) \<and>
   attendees (snd (checkInAttendee env1 ''e1'' ''+15551234567'' ''c2'' store1)) ! 2 = att3"
proof -
  have d: "distinct (map attendee_id (attendees store1))"
    by (simp add: ex_defs)
  have found: "findOne store1 ''e1'' = Inr event1"
    by (simp add: findOne_def ex_defs)
  have facts:
      "list_ex (\<lambda>req. user req = ''c2'' \<and> status req = Approved) (conciergeRequests event1)"
      "attendees store1 = [] @ att1 # [att2, att3]"
      "attendees store1 = [att1, att2] @ att3 # []"
      "list_all (\<lambda>a. \<not> (phone a = ''+15550000000'' \<and> event a = ''e1'')) [att1, att2]"
      "phone att1 = ''+15551234567''" "event att1 = ''e1''" "\<not> checkedIn att1"
      "phone att3 = ''+15550000000''" "event att3 = ''e1''" "checkedIn att3"
      "attendeeUpdate env1" "now env1 = 10"
    by (simp_all add: ex_defs)
  have idx: "(2::nat) < length (attendees store1)" "attendees store1 ! 2 = att3"
    by (simp_all add: ex_defs)
  note a = checkIn_once [where s = store1 and eventId = "''e1''" and ev = event1
      and conciergeId = "''c2''" and en = env1 and ph = "''+15551234567''"
      and pre = "[]" and attendee = att1 and post = "[att2, att3]"
      and ?c2.0 = "''c2''" and ?en2.0 = "env1\<lparr>now := 20\<rparr>"]
  note b = checkIn_once [where s = store1 and eventId = "''e1''" and ev = event1
      and conciergeId = "''c2''" and en = env1 and ph = "''+15550000000''"
      and pre = "[att1, att2]" and attendee = att3 and post = "[]"]
  note a' = a [THEN mp, OF d]
  note b' = b [THEN mp, OF d]
  have ha: "findOne store1 ''e1'' = Inr event1 \<and>
      list_ex (\<lambda>req. user req = ''c2'' \<and> status req = Approved) (conciergeRequests event1) \<and>
      attendees store1 = [] @ att1 # [att2, att3] \<and>
      list_all (\<lambda>a. \<not> (phone a = ''+15551234567'' \<and> event a = ''e1'')) [] \<and>
      phone att1 = ''+15551234567'' \<and> event att1 = ''e1''"
    using found facts(1,2,5,6) by simp
  have hb: "findOne store1 ''e1'' = Inr event1 \<and>
      list_ex (\<lambda>req. user req = ''c2'' \<and> status req = Approved) (conciergeRequests event1) \<and>
      attendees store1 = [att1, att2] @ att3 # [] \<and>
      list_all (\<lambda>a. \<not> (phone a = ''+15550000000'' \<and> event a = ''e1'')) [att1, att2] \<and>
      phone att3 = ''+15550000000'' \<and> event att3 = ''e1''"
    using found facts(1,3,4,8,9) by simp
  note fresh = a' [THEN conjunct2, THEN conjunct2, THEN conjunct2, THEN mp, OF ha,
      THEN conjunct2, THEN mp]
  note again = b' [THEN conjunct2, THEN conjunct2, THEN conjunct2, THEN mp, OF hb,
      THEN conjunct1, THEN mp, OF facts(10)]
  note mono = a' [THEN conjunct2, THEN conjunct1, THEN spec, where x = 2, THEN mp, OF idx(1),
      THEN mp]
  from fresh facts(1,7,11,12)
  have 1: "fst (checkInAttendee env1 ''e1'' ''+15551234567'' ''c2'' store1) =
     Inr ''Attendee checked in successfully'' \<and>
   attendees (snd (checkInAttendee env1 ''e1'' ''+15551234567'' ''c2'' store1)) =
     [att1\<lparr>checkedIn := True, checkedInBy := Some ''c2'', checkedInTime := Some 10\<rparr>,
      att2, att3] \<and>
   checkInAttendee (env1\<lparr>now := 20\<rparr>) ''e1'' ''+15551234567'' ''c2''
       (snd (checkInAttendee env1 ''e1'' ''+15551234567'' ''c2'' store1)) =
     (Inl (HttpException BAD_REQUEST),
      snd (checkInAttendee env1 ''e1'' ''+15551234567'' ''c2'' store1))"
    by simp
  from again
  have 2: "checkInAttendee env1 ''e1'' ''+15550000000'' ''c2'' store1 =
     (Inl (HttpException BAD_REQUEST), store1)" .
  from mono idx(2) facts(10)
  have 3: "attendees (snd (checkInAttendee env1 ''e1'' ''+15551234567'' ''c2'' store1)) ! 2 = att3"
    by simp
  from d 1 2 3 show ?thesis by blast
qed

section \<open>Reviewing a request\<close>

text \<open>
  Claim C4. \<open>reviewConciergeRequest\<close> fails with \<open>NotFoundException\<close> when the event
  does not exist or when no request of the event has the given identifier. When the
  first request with that identifier is not \<open>Pending\<close> it fails with the
  \<open>BAD_REQUEST\<close> exception (the spec's Conflict). When that request is \<open>Pending\<close> and
  the save resolves, the call succeeds, the request becomes \<open>Approved\<close> or \<open>Rejected\<close>
  as the decision says, its \<open>reviewedAt\<close> is the time of the call, and every later review
  of the same request fails with \<open>BAD_REQUEST\<close> and changes nothing.
\<close>

theorem review_outcomes:
  "(findOne s eventId = Inl e \<longrightarrow>
      reviewConciergeRequest en eventId requestId approve adminId s = (Inl NotFoundException, s)) \<and>
   (findOne s eventId = Inr ev \<and>
      \<not> list_ex (\<lambda>r. request_id r = requestId) (conciergeRequests ev) \<longrightarrow>
      reviewConciergeRequest en eventId requestId approve adminId s = (Inl NotFoundException, s)) \<and>
   (findOne s eventId = Inr ev \<and> conciergeRequests ev = pre @ req # post \<and>
      list_all (\<lambda>r. request_id r \<noteq> requestId) pre \<and> request_id req = requestId \<longrightarrow>
      (status req \<noteq> Pending \<longrightarrow>
         reviewConciergeRequest en eventId requestId approve adminId s =
           (Inl (HttpException BAD_REQUEST), s)) \<and>
      (status req = Pending \<and> eventSave en \<longrightarrow>
         fst (reviewConciergeRequest en eventId requestId approve adminId s) =
           Inr (if approve then ''Request approved'' else ''Request rejected'') \<and>
         findOne (snd (reviewConciergeRequest en eventId requestId approve adminId s)) eventId =
           Inr (ev\<lparr>conciergeRequests :=
                    pre @ req\<lparr>status := (if approve then Approved else Rejected),
                               reviewedAt := Some (now en)\<rparr> # post\<rparr>) \<and>
         reviewConciergeRequest en2 eventId requestId approve2 adminId2
             (snd (reviewConciergeRequest en eventId requestId approve adminId s)) =
           (Inl (HttpException BAD_REQUEST),
            snd (reviewConciergeRequest en eventId requestId approve adminId s))))"
proof (intro conjI impI)
  assume "findOne s eventId = Inl e"
  then show "reviewConciergeRequest en eventId requestId approve adminId s =
      (Inl NotFoundException, s)"
    by (auto simp: reviewConciergeRequest_def dest: findOne_Inl)
next
  assume "findOne s eventId = Inr ev \<and>
      \<not> list_ex (\<lambda>r. request_id r = requestId) (conciergeRequests ev)"
  then show "reviewConciergeRequest en eventId requestId approve adminId s =
      (Inl NotFoundException, s)"
    by (simp add: reviewConciergeRequest_def find_none_list_ex [symmetric])
next
  assume a: "findOne s eventId = Inr ev \<and> conciergeRequests ev = pre @ req # post \<and>
      list_all (\<lambda>r. request_id r \<noteq> requestId) pre \<and> request_id req = requestId"
  then have fnd: "List.find (\<lambda>r. request_id r = requestId) (conciergeRequests ev) = Some req"
    by (simp add: find_decomp_eq)
  assume "status req \<noteq> Pending"
  with a fnd show "reviewConciergeRequest en eventId requestId approve adminId s =
      (Inl (HttpException BAD_REQUEST), s)"
    by (simp add: reviewConciergeRequest_def)
next
  assume a: "findOne s eventId = Inr ev \<and> conciergeRequests ev = pre @ req # post \<and>
      list_all (\<lambda>r. request_id r \<noteq> requestId) pre \<and> request_id req = requestId"
  assume b: "status req = Pending \<and> eventSave en"
  let ?req' = "req\<lparr>status := (if approve then Approved else Rejected),
                    reviewedAt := Some (now en)\<rparr>"
  let ?ev' = "ev\<lparr>conciergeRequests := pre @ ?req' # post\<rparr>"
  from a have fnd: "List.find (\<lambda>r. request_id r = requestId) (conciergeRequests ev) = Some req"
    by (simp add: find_decomp_eq)
  from a have upd: "update_first (\<lambda>r. request_id r = requestId)
       (\<lambda>r. r\<lparr>status := (if approve then Approved else Rejected), reviewedAt := Some (now en)\<rparr>)
       (conciergeRequests ev) = pre @ ?req' # post"
    by (simp add: update_first_decomp)
  from a b fnd upd
  have res: "reviewConciergeRequest en eventId requestId approve adminId s =
      (Inr (if approve then ''Request approved'' else ''Request rejected''), save_event ?ev' s)"
    by (simp add: reviewConciergeRequest_def Let_def)
  from a have eid: "event_id ?ev' = eventId"
    using findOne_event_id [of s eventId ev] by simp
  from a have fo': "findOne (save_event ?ev' s) eventId = Inr ?ev'"
    using findOne_save_event [OF _ eid] by blast
  from a have fnd': "List.find (\<lambda>r. request_id r = requestId) (conciergeRequests ?ev') = Some ?req'"
    by (simp add: find_decomp_eq)
  show "fst (reviewConciergeRequest en eventId requestId approve adminId s) =
           Inr (if approve then ''Request approved'' else ''Request rejected'')"
    by (simp add: res)
  show "findOne (snd (reviewConciergeRequest en eventId requestId approve adminId s)) eventId =
           Inr ?ev'"
    by (simp add: res fo')
  show "reviewConciergeRequest en2 eventId requestId approve2 adminId2
             (snd (reviewConciergeRequest en eventId requestId approve adminId s)) =
           (Inl (HttpException BAD_REQUEST),
            snd (reviewConciergeRequest en eventId requestId approve adminId s))"
    unfolding res snd_conv
    using fo' fnd' by (simp add: reviewConciergeRequest_def)
qed

theorem review_outcomes_witness:
  "reviewConciergeRequest env1 ''e9'' ''r2'' True ''admin'' store1 = (Inl NotFoundException, store1) \<and>
   reviewConciergeRequest env1 ''e1'' ''r9'' True ''admin'' store1 = (Inl NotFoundException, store1) \<and>
   reviewConciergeRequest env1 ''e1'' ''r1'' True ''admin'' store1 =
     (Inl (HttpException BAD_REQUEST), store1) \<and>
   fst (reviewConciergeRequest env1 ''e1'' ''r2'' False ''admin'' store1) = Inr ''Request rejected'' \<and>
   findOne (snd (reviewConciergeRequest env1 ''e1'' ''r2'' False ''admin'' store1)) ''e1'' =
     Inr (event1\<lparr>conciergeRequests :=
            [req1, req2\<lparr>status := Rejected, reviewedAt := Some 10\<rparr>, req3]\<rparr>) \<and>
   reviewConciergeRequest env1 ''e1'' ''r2'' True ''admin2''
       (snd (reviewConciergeRequest env1 ''e1'' ''r2'' False ''admin'' store1)) =
     (Inl (HttpException BAD_REQUEST),
      snd (reviewConciergeRequest env1 ''e1'' ''r2'' False ''admin'' store1))"
proof -
  have missing: "findOne store1 ''e9'' = Inl NotFoundException"
    by (simp add: findOne_def ex_defs)
  have found: "findOne store1 ''e1'' = Inr event1"
    by (simp add: findOne_def ex_defs)
  have reqs: "conciergeRequests event1 = [req1] @ req2 # [req3]"
       "conciergeRequests event1 = [] @ req1 # [req2, req3]"
    by (simp_all add: event1_def)
  have ids: "\<not> list_ex (\<lambda>r. request_id r = ''r9'') (conciergeRequests event1)"
       "list_all (\<lambda>r. request_id r \<noteq> ''r2'') [req1]" "request_id req2 = ''r2''"
       "request_id req1 = ''r1''" "status req1 \<noteq> Pending" "status req2 = Pending"
       "eventSave env1" "now env1 = 10"
    by (simp_all add: ex_defs)
  note a = review_outcomes [where s = store1 and eventId = "''e9''" and e = NotFoundException
      and en = env1 and requestId = "''r2''" and approve = True and adminId = "''admin''"]
  note b = review_outcomes [where s = store1 and eventId = "''e1''" and ev = event1
      and en = env1 and requestId = "''r9''" and approve = True and adminId = "''admin''"]
  note c = review_outcomes [where s = store1 and eventId = "''e1''" and ev = event1
      and pre = "[]" and req = req1 and post = "[req2, req3]"
      and en = env1 and requestId = "''r1''" and approve = True and adminId = "''admin''"]
  note d = review_outcomes [where s = store1 and eventId = "''e1''" and ev = event1
      and pre = "[req1]" and req = req2 and post = "[req3]"
      and en = env1 and requestId = "''r2''" and approve = False and adminId = "''admin''"
      and ?en2.0 = env1 and ?approve2.0 = True and ?adminId2.0 = "''admin2''"]
  from a missing have 1: "reviewConciergeRequest env1 ''e9'' ''r2'' True ''admin'' store1 =
      (Inl NotFoundException, store1)" by blast
  from b found ids have 2: "reviewConciergeRequest env1 ''e1'' ''r9'' True ''admin'' store1 =
      (Inl NotFoundException, store1)" by blast
  from c found reqs(2) ids have 3: "reviewConciergeRequest env1 ''e1'' ''r1'' True ''admin'' store1 =
     (Inl (HttpException BAD_REQUEST), store1)" by simp
  from d found reqs(1) ids have 4:
    "fst (reviewConciergeRequest env1 ''e1'' ''r2'' False ''admin'' store1) = Inr ''Request rejected'' \<and>
   findOne (snd (reviewConciergeRequest env1 ''e1'' ''r2'' False ''admin'' store1)) ''e1'' =
     Inr (event1\<lparr>conciergeRequests :=
            [req1, req2\<lparr>status := Rejected, reviewedAt := Some 10\<rparr>, req3]\<rparr>) \<and>
   reviewConciergeRequest env1 ''e1'' ''r2'' True ''admin2''
       (snd (reviewConciergeRequest env1 ''e1'' ''r2'' False ''admin'' store1)) =
     (Inl (HttpException BAD_REQUEST),
      snd (reviewConciergeRequest env1 ''e1'' ''r2'' False ''admin'' store1))" by simp
  from 1 2 3 4 show ?thesis by blast
qed

section \<open>Cancelling a request\<close>

text \<open>
  Claim C7. \<open>cancelConciergeRequest\<close> fails with \<open>NotFoundException\<close> when the event has
  no \<open>Pending\<close> request of the user, whatever other requests the user has there.
  Otherwise, when the save resolves, the first \<open>Pending\<close> request of the user in request
  order is removed from the sequence and every other request stays where it was.
\<close>

theorem cancel_outcomes:
  "(findOne s eventId = Inr ev \<and>
      \<not> list_ex (\<lambda>r. user r = userId \<and> status r = Pending) (conciergeRequests ev) \<longrightarrow>
      cancelConciergeRequest en eventId userId s = (Inl NotFoundException, s)) \<and>
   (findOne s eventId = Inr ev \<and> conciergeRequests ev = pre @ req # post \<and>
      list_all (\<lambda>r. \<not> (user r = userId \<and> status r = Pending)) pre \<and>
      user req = userId \<and> status req = Pending \<and> eventSave en \<longrightarrow>
      fst (cancelConciergeRequest en eventId userId s) = Inr ''Request cancelled'' \<and>
      findOne (snd (cancelConciergeRequest en eventId userId s)) eventId =
        Inr (ev\<lparr>conciergeRequests := pre @ post\<rparr>))"
proof (intro conjI impI)
  assume "findOne s eventId = Inr ev \<and>
      \<not> list_ex (\<lambda>r. user r = userId \<and> status r = Pending) (conciergeRequests ev)"
  then show "cancelConciergeRequest en eventId userId s = (Inl NotFoundException, s)"
    by (simp add: cancelConciergeRequest_def findIndex_none [symmetric])
next
  assume a: "findOne s eventId = Inr ev \<and> conciergeRequests ev = pre @ req # post \<and>
      list_all (\<lambda>r. \<not> (user r = userId \<and> status r = Pending)) pre \<and>
      user req = userId \<and> status req = Pending \<and> eventSave en"
  then have idx: "findIndex (\<lambda>r. user r = userId \<and> status r = Pending) (conciergeRequests ev) =
      Some (length pre)"
    by (simp add: findIndex_decomp)
  from a idx have res: "cancelConciergeRequest en eventId userId s =
      (Inr ''Request cancelled'', save_event (ev\<lparr>conciergeRequests := pre @ post\<rparr>) s)"
    by (simp add: cancelConciergeRequest_def Let_def splice1_decomp)
  from a have eid: "event_id (ev\<lparr>conciergeRequests := pre @ post\<rparr>) = eventId"
    using findOne_event_id [of s eventId ev] by simp
  from a have fo': "findOne (save_event (ev\<lparr>conciergeRequests := pre @ post\<rparr>) s) eventId =
      Inr (ev\<lparr>conciergeRequests := pre @ post\<rparr>)"
    using findOne_save_event [OF _ eid] by blast
  show "fst (cancelConciergeRequest en eventId userId s) = Inr ''Request cancelled''"
    by (simp add: res)
  show "findOne (snd (cancelConciergeRequest en eventId userId s)) eventId =
        Inr (ev\<lparr>conciergeRequests := pre @ post\<rparr>)"
    by (simp add: res fo')
qed

theorem cancel_outcomes_witness:
  "cancelConciergeRequest env1 ''e1'' ''c2'' store1 = (Inl NotFoundException, store1) \<and>
   fst (cancelConciergeRequest env1 ''e1'' ''c1'' store1) = Inr ''Request cancelled'' \<and>
   findOne (snd (cancelConciergeRequest env1 ''e1'' ''c1'' store1)) ''e1'' =
     Inr (event1\<lparr>conciergeRequests := [req1, req3]\<rparr>)"
proof -
  have found: "findOne store1 ''e1'' = Inr event1"
    by (simp add: findOne_def ex_defs)
  have reqs: "conciergeRequests event1 = [req1] @ req2 # [req3]"
    by (simp add: event1_def)
  have facts: "\<not> list_ex (\<lambda>r. user r = ''c2'' \<and> status r = Pending) (conciergeRequests event1)"
       "list_all (\<lambda>r. \<not> (user r = ''c1'' \<and> status r = Pending)) [req1]"
       "user req2 = ''c1''" "status req2 = Pending" "eventSave env1"
    by (simp_all add: ex_defs)
  note a = cancel_outcomes [where s = store1 and eventId = "''e1''" and ev = event1
      and en = env1 and userId = "''c2''"]
  note b = cancel_outcomes [where s = store1 and eventId = "''e1''" and ev = event1
      and pre = "[req1]" and req = req2 and post = "[req3]" and en = env1 and userId = "''c1''"]
  from a found facts(1)
  have 1: "cancelConciergeRequest env1 ''e1'' ''c2'' store1 = (Inl NotFoundException, store1)"
    by blast
  from b found reqs facts
  have 2: "fst (cancelConciergeRequest env1 ''e1'' ''c1'' store1) = Inr ''Request cancelled'' \<and>
   findOne (snd (cancelConciergeRequest env1 ''e1'' ''c1'' store1)) ''e1'' =
     Inr (event1\<lparr>conciergeRequests := [req1, req3]\<rparr>)"
    by simp
  from 1 2 show ?thesis by blast
qed

section \<open>Review does not depend on the reviewer\<close>

text \<open>
  Claim C10. Two runs of \<open>reviewConciergeRequest\<close> that differ only in the reviewer's
  identifier give the same result and the same store, and a review leaves the
  \<open>reviewedBy\<close> field of every request of every event as it was: the reviewer is not
  recorded.
\<close>

theorem review_independent_of_reviewer:
  "reviewConciergeRequest en eventId requestId approve adminId1 s =
     reviewConciergeRequest en eventId requestId approve adminId2 s \<and>
   map (\<lambda>ev. map reviewedBy (conciergeRequests ev))
       (events (snd (reviewConciergeRequest en eventId requestId approve adminId1 s))) =
     map (\<lambda>ev. map reviewedBy (conciergeRequests ev)) (events s)"
proof -
  have same: "reviewConciergeRequest en eventId requestId approve adminId1 s =
     reviewConciergeRequest en eventId requestId approve adminId2 s"
    by (simp add: reviewConciergeRequest_def)
  have keep: "map (\<lambda>ev. map reviewedBy (conciergeRequests ev))
       (events (snd (reviewConciergeRequest en eventId requestId approve adminId1 s))) =
     map (\<lambda>ev. map reviewedBy (conciergeRequests ev)) (events s)"
  proof (cases "findOne s eventId")
    case (Inl e)
    then show ?thesis by (simp add: reviewConciergeRequest_def)
  next
    case (Inr ev)
    note fo = findOne_find [OF Inr] findOne_event_id [OF Inr]
    show ?thesis
      using Inr fo
      by (auto simp: reviewConciergeRequest_def save_event_def Let_def
            map_update_first_keep
          split: option.splits intro!: map_update_first_const)
  qed
  from same keep show ?thesis by simp
qed


end
